theory Spec2Isabelle
  imports Main "HOL-Library.Sublist"
begin

section \<open>Task extraction and caching pipeline of the task calendar\<close>

text \<open>
  A shallow embedding of \<^verbatim>\<open>src/src/settings.ts\<close> (the part after the settings tab:
  \<^verbatim>\<open>defaultSort\<close>, \<^verbatim>\<open>TaskOptions\<close>, \<^verbatim>\<open>FileTaskCache\<close>, \<^verbatim>\<open>ItemTaskCache\<close> and
  \<^verbatim>\<open>ObsidianTaskAdapter\<close>). JavaScript strings are \<open>string\<close>; numbers that the code
  only compares or counts are \<open>int\<close>; \<^verbatim>\<open>null\<close>/\<^verbatim>\<open>undefined\<close> are \<open>None\<close>; a thrown
  exception is the \<open>Inl\<close> of a sum; objects that the code mutates are threaded through as
  explicit state.
\<close>

subsection \<open>String primitives of the host language\<close>

text \<open>
  \<^verbatim>\<open>String.prototype.trim\<close>: white space is removed from both ends. The white space of
  the model is the ASCII part of the JavaScript set (space, tab, line feed, vertical tab,
  form feed, carriage return).
\<close>

definition is_space :: "char \<Rightarrow> bool" where
  "is_space c = (c = CHR '' '' \<or> c = CHR 0x09 \<or> c = CHR 0x0A \<or> c = CHR 0x0B
                 \<or> c = CHR 0x0C \<or> c = CHR 0x0D)"

definition trim :: "string \<Rightarrow> string" where
  "trim s = rev (dropWhile is_space (rev (dropWhile is_space s)))"

text \<open>\<^verbatim>\<open>s.split(c)\<close> for a one-character separator: \<^verbatim>\<open>''.split('/')\<close> is \<^verbatim>\<open>['']\<close>.\<close>

fun split :: "char \<Rightarrow> string \<Rightarrow> string list" where
  "split c [] = [[]]"
| "split c (x # xs) =
     (if x = c then [] # split c xs
      else (case split c xs of [] \<Rightarrow> [[x]] | w # ws \<Rightarrow> (x # w) # ws))"

text \<open>
  \<^verbatim>\<open>s.replace(c, '')\<close> with a one-character string pattern: only the first occurrence
  is removed.
\<close>

fun replace_first :: "char \<Rightarrow> string \<Rightarrow> string" where
  "replace_first c [] = []"
| "replace_first c (x # xs) = (if x = c then xs else x # replace_first c xs)"

text \<open>\<^verbatim>\<open>[...new Set(xs)]\<close>: duplicates are dropped, the first occurrence keeps its place.\<close>

fun Set_spread_acc :: "'a list \<Rightarrow> 'a list \<Rightarrow> 'a list" where
  "Set_spread_acc acc [] = acc"
| "Set_spread_acc acc (x # xs) = Set_spread_acc (if x \<in> set acc then acc else acc @ [x]) xs"

definition Set_spread :: "'a list \<Rightarrow> 'a list" where
  "Set_spread xs = Set_spread_acc [] xs"

text \<open>\<^verbatim>\<open>n.toString()\<close> for an integer.\<close>

definition digit_char :: "nat \<Rightarrow> char" where
  "digit_char d = ''0123456789'' ! d"

fun nat_toString :: "nat \<Rightarrow> string" where
  "nat_toString n = (if n < 10 then [digit_char n] else nat_toString (n div 10) @ [digit_char (n mod 10)])"

definition int_toString :: "int \<Rightarrow> string" where
  "int_toString i = (if i < 0 then CHR ''-'' # nat_toString (nat (- i)) else nat_toString (nat i))"

subsection \<open>The default comparator\<close>

text \<open>
  A \<^verbatim>\<open>SortableTask\<close> carries an optional \<^verbatim>\<open>order\<close>; the comparator also accepts
  \<^verbatim>\<open>null\<close>/\<^verbatim>\<open>undefined\<close> for the task itself (\<^verbatim>\<open>t1?.order ?? 0\<close>). Reading a field
  of a plain record does not throw, so the \<^verbatim>\<open>catch\<close> of \<^verbatim>\<open>defaultSort\<close> is never entered;
  the three branches of its \<^verbatim>\<open>try\<close> block are kept as written.
\<close>

record SortableTask =
  order :: "int option"

definition order_or_0 :: "SortableTask option \<Rightarrow> int" where
  "order_or_0 t = (case t of None \<Rightarrow> 0 | Some s \<Rightarrow> (case order s of None \<Rightarrow> 0 | Some n \<Rightarrow> n))"

definition defaultSort :: "SortableTask option \<Rightarrow> SortableTask option \<Rightarrow> int" where
  "defaultSort t1 t2 =
     (let o1 = order_or_0 t1; o2 = order_or_0 t2
      in if o1 \<le> o2 then - 1
         else if o1 = o2 then 0
         else 1)"

subsection \<open>Regular expressions and front matter\<close>

text \<open>
  \<^verbatim>\<open>TaskRegularExpressions\<close> is imported from \<^verbatim>\<open>utils/tasks\<close>, which is not among the
  sources, so the two expressions the line parser uses are parameters of the model. An
  expression is given by what the host's matcher computes from it:
  \<^item> \<^verbatim>\<open>line.match(taskRegex)\<close>: \<open>None\<close> for \<^verbatim>\<open>null\<close>, otherwise the capture groups
    1 to 4 (indentation, list marker, status character, body);
  \<^item> \<^verbatim>\<open>s.match(blockLinkRegex)\<close>: \<open>None\<close> for \<^verbatim>\<open>null\<close>, otherwise the first match
    together with the text before and after it.
\<close>

type_synonym regex_groups4 = "string \<Rightarrow> (string \<times> string \<times> string \<times> string) option"
type_synonym regex_search = "string \<Rightarrow> (string \<times> string \<times> string) option"

record TaskRegularExpressions =
  taskRegex :: regex_groups4
  blockLinkRegex :: regex_search

text \<open>\<^verbatim>\<open>s.replace(re, '')\<close> for an expression without the global flag: the first match is cut out.\<close>

definition replace_regex_empty :: "regex_search \<Rightarrow> string \<Rightarrow> string" where
  "replace_regex_empty re s = (case re s of None \<Rightarrow> s | Some (pre, m, post) \<Rightarrow> pre @ post)"

text \<open>
  Modelled from the spec: \<^verbatim>\<open>TaskRegularExpressions.taskRegex\<close> (module \<^verbatim>\<open>utils/tasks\<close> is
  missing). The spec: a task line is ``optional indentation, a list marker, a bracketed
  status marker, then a body''. Indentation is leading white space, the list marker one of
  \<^verbatim>\<open>-\<close>, \<^verbatim>\<open>*\<close>, \<^verbatim>\<open>+\<close> followed by at least one space, the status marker any one character
  between square brackets, and the body the rest of the line.
\<close>

definition taskRegex_spec :: regex_groups4 where
  "taskRegex_spec ln =
     (let indentation = takeWhile is_space ln in
      case dropWhile is_space ln of
        [] \<Rightarrow> None
      | m # r1 \<Rightarrow>
          if m = CHR ''-'' \<or> m = CHR ''*'' \<or> m = CHR ''+'' then
            (case r1 of
               [] \<Rightarrow> None
             | sp # r2 \<Rightarrow>
                 if sp = CHR '' '' then
                   (case dropWhile (\<lambda>c. c = CHR '' '') r2 of
                      ob # st # cb # body \<Rightarrow>
                        if ob = CHR ''['' \<and> cb = CHR '']''
                        then Some (indentation, [m], [st], body) else None
                    | _ \<Rightarrow> None)
                 else None)
          else None)"

text \<open>
  Modelled from the spec: \<^verbatim>\<open>TaskRegularExpressions.blockLinkRegex\<close> (module \<^verbatim>\<open>utils/tasks\<close>
  is missing). The spec: ``a caret-prefixed identifier at line end''. An identifier is a
  non-empty run of letters, digits and hyphens.
\<close>

definition is_ident_char :: "char \<Rightarrow> bool" where
  "is_ident_char c =
     (let n = (of_char c :: nat)
      in (48 \<le> n \<and> n \<le> 57) \<or> (65 \<le> n \<and> n \<le> 90) \<or> (97 \<le> n \<and> n \<le> 122) \<or> c = CHR ''-'')"

definition blockLinkRegex_spec :: regex_search where
  "blockLinkRegex_spec s =
     (let ident = takeWhile is_ident_char (rev s) in
      case dropWhile is_ident_char (rev s) of
        [] \<Rightarrow> None
      | c # pre \<Rightarrow>
          if c = CHR ''^'' \<and> ident \<noteq> [] then Some (rev pre, c # rev ident, [])
          else None)"

definition TaskRegularExpressions_spec :: TaskRegularExpressions where
  "TaskRegularExpressions_spec = \<lparr> taskRegex = taskRegex_spec, blockLinkRegex = blockLinkRegex_spec \<rparr>"

text \<open>
  A value of the document's front matter. The elements of a list are strings, as the cast
  \<^verbatim>\<open>as unknown as Array<string>\<close> of the parser takes them to be.
\<close>

datatype FrontMatterValue =
    FMString string
  | FMNumber int
  | FMBoolean bool
  | FMNull
  | FMArray "string list"
  | FMObject

type_synonym FrontMatterCache = "string \<rightharpoonup> FrontMatterValue"

subsection \<open>Task records\<close>

record Loc =
  line :: int
  col :: int
  offset :: int

record Pos =
  start :: Loc
  "end" :: Loc

type_synonym Moment = int

text \<open>
  The record \<^verbatim>\<open>fromLine\<close> builds, field by field. \<open>'link\<close> is the \<^verbatim>\<open>Link\<close> class of
  \<^verbatim>\<open>dataview-util/markdown\<close>, which the parser only passes on. \<^verbatim>\<open>visual\<close> is optional
  (the filters read it with \<^verbatim>\<open>?.\<close>); \<^verbatim>\<open>children\<close> and \<^verbatim>\<open>subtasks\<close> hold references to
  nested records.
\<close>

record 'link TaskDataModel =
  symbol :: string
  link :: 'link
  "section" :: 'link
  "text" :: string
  visual :: "string option"
  tags :: "string list"
  line :: int
  lineCount :: int
  list :: int
  outlinks :: "'link list"
  path :: string
  children :: "nat list"
  task :: bool
  annotated :: bool
  position :: Pos
  subtasks :: "nat list"
  real :: bool
  header :: 'link
  status :: string
  statusMarker :: string
  checked :: bool
  completed :: bool
  fullyCompleted :: bool
  dailyNote :: bool
  order :: int
  priority :: string
  recurrence :: string
  frontMatter :: FrontMatterCache
  isTasksTask :: bool
  due :: "Moment option"
  scheduled :: "Moment option"
  start :: "Moment option"
  completion :: "Moment option"
  dates :: "string \<rightharpoonup> Moment"

subsection \<open>The line parser\<close>

text \<open>
  The front-matter block of \<^verbatim>\<open>fromLine\<close>. It pushes onto the caller's \<^verbatim>\<open>tags\<close> array, so
  the array is threaded through: the result is the array after the block and the error
  the block threw, if any (\<^verbatim>\<open>forEach\<close> of a truthy non-array object is not a function).
\<close>

definition push_frontMatter_tags :: "FrontMatterCache option \<Rightarrow> string list \<Rightarrow> string list \<times> string option" where
  "push_frontMatter_tags fm tgs =
     (case fm of
        None \<Rightarrow> (tgs, None)
      | Some m \<Rightarrow>
          (let tgs1 = (case m ''tag'' of
                         Some (FMString t) \<Rightarrow> if t \<noteq> [] then tgs @ [t] else tgs
                       | _ \<Rightarrow> tgs)
           in case m ''tags'' of
                Some (FMArray ts) \<Rightarrow> (tgs1 @ ts, None)
              | Some FMObject \<Rightarrow> (tgs1, Some ''TypeError: frontMatter.tags.forEach is not a function'')
              | _ \<Rightarrow> (tgs1, None)))"

text \<open>
  \<^verbatim>\<open>fromLine\<close>. The first component of the result is the caller's \<^verbatim>\<open>tags\<close> array as the
  call leaves it; the second is the thrown error (\<open>Inl\<close>), \<^verbatim>\<open>null\<close> (\<open>Inr None\<close>) or
  the record.
\<close>

definition fromLine ::
  "TaskRegularExpressions \<Rightarrow> string \<Rightarrow> string \<Rightarrow> 'link \<Rightarrow> Pos \<Rightarrow> 'link list \<Rightarrow> string list
   \<Rightarrow> FrontMatterCache option \<Rightarrow> string list \<times> (string + 'link TaskDataModel option)" where
  "fromLine re ln filePath parent pos outLinks tgs fm =
     (case taskRegex re ln of
        None \<Rightarrow> (tgs, Inr None)
      | Some (indentation, listMarker, statusString, g4) \<Rightarrow>
          (let body = trim g4;
               blockLink = (case blockLinkRegex re body of None \<Rightarrow> [] | Some (pre, m, post) \<Rightarrow> m);
               description = (if blockLink \<noteq> [] then trim (replace_regex_empty (blockLinkRegex re) body)
                              else body)
           in case push_frontMatter_tags fm tgs of
                (tgs1, Some err) \<Rightarrow> (tgs1, Inl err)
              | (tgs1, None) \<Rightarrow>
                  (tgs1, Inr (Some \<lparr>
                     symbol = listMarker,
                     link = parent,
                     section = parent,
                     text = ln,
                     visual = Some (trim description),
                     tags = Set_spread tgs1,
                     line = Loc.line (Pos.start pos),
                     lineCount = Loc.line (end pos) - Loc.line (Pos.start pos) + 1,
                     list = Loc.line (Pos.start pos),
                     outlinks = outLinks,
                     path = filePath,
                     children = [],
                     task = True,
                     annotated = False,
                     position = pos,
                     subtasks = [],
                     real = True,
                     header = parent,
                     status = statusString,
                     statusMarker = statusString,
                     checked = (length (replace_first CHR '' '' description) \<noteq> 0),
                     completed = (statusString = ''x''),
                     fullyCompleted = (statusString \<noteq> '' ''),
                     dailyNote = False,
                     order = 0,
                     priority = [],
                     recurrence = [],
                     frontMatter = (case fm of None \<Rightarrow> Map.empty | Some m \<Rightarrow> m),
                     isTasksTask = False,
                     due = None,
                     scheduled = None,
                     start = None,
                     completion = None,
                     dates = Map.empty \<rparr>))))"

text \<open>
  A call of \<^verbatim>\<open>fromLine\<close> as its caller sees it. The line and the path are strings, which
  cannot be changed; the other arguments are objects passed by reference (the parent link,
  the position, the array of out-links, the array of tags, the front matter). The call
  takes these objects as they are before it and gives them back as they are after it: the
  body writes to \<^verbatim>\<open>tags\<close> (\<^verbatim>\<open>tags.push\<close>) and to no other of them.
\<close>

record 'link fromLine_args =
  arg_parent :: 'link
  arg_position :: Pos
  arg_outLinks :: "'link list"
  arg_tags :: "string list"
  arg_frontMatter :: "FrontMatterCache option"

definition fromLine_on ::
  "TaskRegularExpressions \<Rightarrow> string \<Rightarrow> string \<Rightarrow> 'link fromLine_args
   \<Rightarrow> 'link fromLine_args \<times> (string + 'link TaskDataModel option)" where
  "fromLine_on re ln filePath args =
     (case fromLine re ln filePath (arg_parent args) (arg_position args) (arg_outLinks args)
             (arg_tags args) (arg_frontMatter args) of
        (tgs1, res) \<Rightarrow> (args\<lparr>arg_tags := tgs1\<rparr>, res))"

subsection \<open>Document selection by path\<close>

text \<open>\<^verbatim>\<open>xs[i]\<close>: \<^verbatim>\<open>undefined\<close> out of range.\<close>

definition array_get :: "'a list \<Rightarrow> nat \<Rightarrow> 'a option" where
  "array_get xs i = (if i < length xs then Some (xs ! i) else None)"

text \<open>\<^verbatim>\<open>xs.every((v, i) => p(v, i))\<close>.\<close>

definition every_indexed :: "('a \<Rightarrow> nat \<Rightarrow> bool) \<Rightarrow> 'a list \<Rightarrow> bool" where
  "every_indexed p xs = list_all (\<lambda>i. p (xs ! i) i) [0..<length xs]"

definition isParent :: "string \<Rightarrow> string \<Rightarrow> bool" where
  "isParent parent pth =
     (if length parent > length pth then False
      else let paths = split CHR ''/'' pth;
               parents = split CHR ''/'' parent
           in every_indexed (\<lambda>v i. array_get paths i = Some v) parents)"

text \<open>The two path filters take the \<^verbatim>\<open>path\<close> of the \<^verbatim>\<open>TFile\<close>.\<close>

definition pathsIncludeFile :: "string list \<Rightarrow> string \<Rightarrow> bool" where
  "pathsIncludeFile flt file_path =
     (length flt = 0 \<or> list_ex (\<lambda>includePath. isParent includePath file_path) flt)"

definition pathsExcludeFilter :: "string list \<Rightarrow> string \<Rightarrow> bool" where
  "pathsExcludeFilter flt file_path =
     (length flt = 0 \<or> list_all (\<lambda>excludePath. \<not> isParent excludePath file_path) flt)"

subsection \<open>Transform configuration\<close>

text \<open>
  The options this part of the program reads (a subset of \<^verbatim>\<open>UserOption\<close>), first as the
  partial update \<^verbatim>\<open>PartialUserOption\<close> that \<^verbatim>\<open>set\<close> receives, then as the class
  \<^verbatim>\<open>UserOptions\<close> with the defaults of its field initialisers. The field \<^verbatim>\<open>sort\<close> is
  called \<open>sort_src\<close> here.
\<close>

record PartialUserOption =
  filterEmpty :: "bool option"
  useIncludeTags :: "bool option"
  taskIncludeTags :: "string list option"
  useExcludeTags :: "bool option"
  taskExcludeTags :: "string list option"
  hideStatusTasks :: "string list option"
  sort_src :: "string option"

record UserOptions =
  filterEmpty :: bool
  useIncludeTags :: bool
  taskIncludeTags :: "string list"
  useExcludeTags :: bool
  taskExcludeTags :: "string list"
  hideStatusTasks :: "string list"
  sort_src :: string

text \<open>
  A comparator handed to \<^verbatim>\<open>Array.prototype.sort\<close>: it returns a number or throws. Numbers
  are integers in the model; the validation only reads the sign.
\<close>

type_synonym SortFunction = "SortableTask option \<Rightarrow> SortableTask option \<Rightarrow> string + int"

record TaskOptions = UserOptions +
  sortFunction :: SortFunction

definition defaultSort_fn :: SortFunction where
  "defaultSort_fn t1 t2 = Inr (defaultSort t1 t2)"

definition TaskOptions_new :: TaskOptions where
  "TaskOptions_new =
     \<lparr> filterEmpty = True,
       useIncludeTags = False,
       taskIncludeTags = [],
       useExcludeTags = False,
       taskExcludeTags = [],
       hideStatusTasks = [''x'', ''-''],
       sort_src = ''(t1, t2) => t1.order <= t2.order ? -1 : 1'',
       sortFunction = defaultSort_fn \<rparr>"

text \<open>\<^verbatim>\<open>a ?? b\<close>.\<close>

definition nullish :: "'a option \<Rightarrow> 'a \<Rightarrow> 'a" where
  "nullish a b = (case a of None \<Rightarrow> b | Some v \<Rightarrow> v)"

definition UserOptions_set :: "PartialUserOption \<Rightarrow> TaskOptions \<Rightarrow> TaskOptions" where
  "UserOptions_set settings this =
     this\<lparr> filterEmpty := nullish (PartialUserOption.filterEmpty settings) (filterEmpty this),
           useIncludeTags := nullish (PartialUserOption.useIncludeTags settings) (useIncludeTags this),
           useExcludeTags := nullish (PartialUserOption.useExcludeTags settings) (useExcludeTags this),
           sort_src := nullish (PartialUserOption.sort_src settings) (sort_src this),
           taskIncludeTags := nullish (PartialUserOption.taskIncludeTags settings) (taskIncludeTags this),
           taskExcludeTags := nullish (PartialUserOption.taskExcludeTags settings) (taskExcludeTags this),
           hideStatusTasks := nullish (PartialUserOption.hideStatusTasks settings) (hideStatusTasks this) \<rparr>"

text \<open>
  The four filters of \<^verbatim>\<open>getFilters\<close>, in their order. \<^verbatim>\<open>TaskStatusMarkerMap\<close> (of
  \<^verbatim>\<open>utils/tasks\<close>, not among the sources) is the parameter \<open>markerMap\<close>: the status a
  marker stands for, \<open>None\<close> for a marker that is not a key of the table. The tag
  lists are arrays, never falsy, so the tests \<^verbatim>\<open>!tagIncludes\<close> and \<^verbatim>\<open>!tagExcludes\<close>
  decide nothing and have no branch here.
\<close>

definition getFilters ::
  "(string \<Rightarrow> string option) \<Rightarrow> TaskOptions \<Rightarrow> ('link TaskDataModel \<Rightarrow> bool) list" where
  "getFilters markerMap opts =
     [ \<lambda>task.
         if length (hideStatusTasks opts) = 0 then True
         else if statusMarker task \<in> set (hideStatusTasks opts) then False
         else \<not> list_ex (\<lambda>marker. markerMap marker = Some (status task)) (hideStatusTasks opts),
       \<lambda>task.
         if useIncludeTags opts = False then True
         else let tagIncludes = taskIncludeTags opts
              in if length tagIncludes = 0 then True
                 else if list_ex (\<lambda>tag. tag \<in> set (tags task)) tagIncludes then True
                 else False,
       \<lambda>task.
         if useExcludeTags opts = False then True
         else let tagExcludes = taskExcludeTags opts
              in if length tagExcludes = 0 then True
                 else if list_all (\<lambda>tag. tag \<notin> set (tags task)) tagExcludes then True
                 else False,
       \<lambda>task.
         let vis = (case visual task of None \<Rightarrow> [] | Some v \<Rightarrow> trim v)
         in filterEmpty opts = False \<or> vis \<noteq> [] ]"

text \<open>
  The \<^verbatim>\<open>try\<close> block of \<^verbatim>\<open>TaskOptions.set\<close>: the comparator source is evaluated
  (\<open>js_eval\<close> stands for the host's indirect \<^verbatim>\<open>eval\<close>: it throws or yields a function),
  the result is probed with \<^verbatim>\<open>{ order: 2 }\<close> and \<^verbatim>\<open>{ order: 1 }\<close>, and a non-positive
  answer throws.
\<close>

definition probe_sortFunction :: "(string \<Rightarrow> string + SortFunction) \<Rightarrow> string \<Rightarrow> string + SortFunction" where
  "probe_sortFunction js_eval src =
     (case js_eval src of
        Inl err \<Rightarrow> Inl err
      | Inr sortFn \<Rightarrow>
          (case sortFn (Some \<lparr>SortableTask.order = Some 2\<rparr>) (Some \<lparr>SortableTask.order = Some 1\<rparr>) of
             Inl err \<Rightarrow> Inl err
           | Inr test \<Rightarrow> if test > 0 then Inr sortFn else Inl ''Error: Test function failed.''))"

text \<open>
  \<^verbatim>\<open>TaskOptions.set\<close> on the options object and the console (the list of warnings logged).
  The modifier and filter lists it rebuilds are functions of the options and are not stored.
\<close>

definition TaskOptions_set ::
  "(string \<Rightarrow> string + SortFunction) \<Rightarrow> PartialUserOption \<Rightarrow> TaskOptions \<times> string list
   \<Rightarrow> TaskOptions \<times> string list" where
  "TaskOptions_set js_eval settings st =
     (let this = UserOptions_set settings (fst st);
          console = snd st
      in case probe_sortFunction js_eval (sort_src this) of
           Inr sortFn \<Rightarrow> (this\<lparr>sortFunction := sortFn\<rparr>, console)
         | Inl err \<Rightarrow>
             (this, console @ [''[task-calendar] Sorting lambda is not applicable or invalid in some way. '' @ err]))"

subsection \<open>Document cache entry: modifiers and filters\<close>

text \<open>
  The body of the loop of \<^verbatim>\<open>FileTaskCache.getTasks\<close> over the resolved items (\<open>None\<close> for
  an item that is no task). The modifiers are those of \<^verbatim>\<open>utils/task-mappable\<close>, not among
  the sources: a modifier is a function that may answer \<^verbatim>\<open>null\<close>.
\<close>

definition applyModifiers :: "('t \<Rightarrow> 't option) list \<Rightarrow> 't \<Rightarrow> 't option" where
  "applyModifiers modifiers task0 =
     fold (\<lambda>modifier t. case t of None \<Rightarrow> None | Some x \<Rightarrow> modifier x) modifiers (Some task0)"

fun getTasks_loop :: "('t \<Rightarrow> 't option) list \<Rightarrow> ('t \<Rightarrow> bool) list \<Rightarrow> 't option list \<Rightarrow> 't list \<Rightarrow> 't list" where
  "getTasks_loop modifiers filters [] acc = acc"
| "getTasks_loop modifiers filters (item # items) acc =
     (case item of
        None \<Rightarrow> getTasks_loop modifiers filters items acc
      | Some task0 \<Rightarrow>
          (case applyModifiers modifiers task0 of
             None \<Rightarrow> getTasks_loop modifiers filters items acc
           | Some transformedTask \<Rightarrow>
               if list_all (\<lambda>f. f transformedTask) filters
               then getTasks_loop modifiers filters items (acc @ [transformedTask])
               else getTasks_loop modifiers filters items acc))"

definition getTasks :: "('t \<Rightarrow> 't option) list \<Rightarrow> ('t \<Rightarrow> bool) list \<Rightarrow> 't option list \<Rightarrow> 't list" where
  "getTasks modifiers filters items = getTasks_loop modifiers filters items []"

text \<open>The tasks a document contributes under given options.\<close>

definition kept_tasks ::
  "(string \<Rightarrow> string option) \<Rightarrow> TaskOptions \<Rightarrow> ('link TaskDataModel \<Rightarrow> 'link TaskDataModel option) list
   \<Rightarrow> 'link TaskDataModel option list \<Rightarrow> 'link TaskDataModel list" where
  "kept_tasks markerMap opts modifiers items = getTasks modifiers (getFilters markerMap opts) items"

subsection \<open>Item cache entries and the registry of pending resolutions\<close>

text \<open>
  Objects are referred to by reference (\<open>ref\<close>), promises by handle. An
  \<^verbatim>\<open>ItemTaskCache\<close> holds its memoized promise (\<^verbatim>\<open>_asyncTaskData\<close>, \<^verbatim>\<open>null\<close> at first),
  its list item (\<^verbatim>\<open>_item\<close>), the reference to its \<^verbatim>\<open>FileTaskCache\<close> together with that object's
  read-only \<^verbatim>\<open>id\<close> (the path of the file), and its own \<^verbatim>\<open>id\<close>, here \<open>ident\<close>.
\<close>

type_synonym ref = nat
type_synonym promise = nat

record ListItemCache =
  item_id :: "string option"
  item_parent :: int
  item_position :: Pos

record ItemTaskCache =
  asyncTaskData :: "promise option"
  listItem :: ListItemCache
  fileCache :: ref
  fileCache_id :: string
  ident :: string

definition ItemTaskCache_new :: "ref \<Rightarrow> string \<Rightarrow> ListItemCache \<Rightarrow> ItemTaskCache" where
  "ItemTaskCache_new fc fc_id it =
     \<lparr> asyncTaskData = None,
       listItem = it,
       fileCache = fc,
       fileCache_id = fc_id,
       ident = fc_id @ nullish (item_id it) (int_toString (item_parent it)) \<rparr>"

definition resolved :: "ItemTaskCache \<Rightarrow> bool" where
  "resolved this = (asyncTaskData this \<noteq> None)"

text \<open>
  The state of the adapter that the cache entries share: the task table \<^verbatim>\<open>_tasks\<close>, the
  two queues of the registry, the store of the \<^verbatim>\<open>ItemTaskCache\<close> objects, the promises
  handed out by \<^verbatim>\<open>getTaskDataModel\<close> (\<open>None\<close> while pending, then the value they are
  fulfilled with; they never reject), the console, and a log of the calls of
  \<^verbatim>\<open>fromItemCache\<close>, one entry per parse started, by the entry that started it.
\<close>

record 't Adapter =
  tasks_table :: "string \<rightharpoonup> 't"
  internalFileQueue :: "string \<rightharpoonup> ref list"
  internalListQueue :: "string \<rightharpoonup> ref"
  itemCaches :: "ref \<Rightarrow> ItemTaskCache"
  promises :: "'t option option list"
  console :: "string list"
  parses :: "ref list"

text \<open>What awaiting \<^verbatim>\<open>fromItemCache\<close> gives: a record, \<^verbatim>\<open>null\<close>, or a thrown error.\<close>

datatype 't outcome = Fulfilled "'t option" | Rejected string

text \<open>\<^verbatim>\<open>xs.remove(x)\<close> of the host's array extension: every occurrence of \<open>x\<close> is removed.\<close>

definition array_remove :: "'a \<Rightarrow> 'a list \<Rightarrow> 'a list" where
  "array_remove x xs = removeAll x xs"

text \<open>\<^verbatim>\<open>ItemTaskCache.remove\<close>. Both queues are indexed with the \<^verbatim>\<open>id\<close> of the item.\<close>

definition remove :: "ItemTaskCache \<Rightarrow> 't Adapter \<Rightarrow> 't Adapter" where
  "remove this a =
     (let fq1 = (if internalFileQueue a (ident this) = None
                 then (internalFileQueue a)(ident this \<mapsto> [])
                 else internalFileQueue a);
          fq2 = (case fq1 (ident this) of
                   None \<Rightarrow> fq1
                 | Some xs \<Rightarrow> fq1(ident this \<mapsto> array_remove (fileCache this) xs));
          lq = (if internalListQueue a (ident this) \<noteq> None
                then (internalListQueue a)(ident this := None)
                else internalListQueue a)
      in a\<lparr>internalFileQueue := fq2, internalListQueue := lq\<rparr>)"

text \<open>
  \<^verbatim>\<open>getTaskDataModel\<close>, in two parts: what runs before the \<^verbatim>\<open>await\<close> (the registration
  and the call of \<^verbatim>\<open>fromItemCache\<close>), and what runs when the awaited parse has settled
  with an outcome (the \<^verbatim>\<open>catch\<close>, the \<^verbatim>\<open>finally\<close>, and the fulfilment of the promise of
  \<^verbatim>\<open>getTaskDataModel\<close> itself with \<^verbatim>\<open>taskData\<close>).
\<close>

definition getTaskDataModel_begin :: "ref \<Rightarrow> 't Adapter \<Rightarrow> 't Adapter" where
  "getTaskDataModel_begin r a =
     (let this = itemCaches a r;
          fq1 = (if internalFileQueue a (fileCache_id this) = None
                 then (internalFileQueue a)(fileCache_id this \<mapsto> [])
                 else internalFileQueue a);
          fq2 = (case fq1 (fileCache_id this) of
                   None \<Rightarrow> fq1
                 | Some xs \<Rightarrow> fq1(fileCache_id this \<mapsto> xs @ [fileCache this]));
          itemTaskCache = (case internalListQueue a (ident this) of
                             None \<Rightarrow> None
                           | Some r' \<Rightarrow> if resolved (itemCaches a r') then None else Some r');
          lq = (internalListQueue a)(ident this \<mapsto> nullish itemTaskCache r)
      in a\<lparr>internalFileQueue := fq2, internalListQueue := lq, parses := parses a @ [r]\<rparr>)"

definition getTaskDataModel_end :: "ref \<Rightarrow> promise \<Rightarrow> 't outcome \<Rightarrow> 't Adapter \<Rightarrow> 't Adapter" where
  "getTaskDataModel_end r p out a =
     (let this = itemCaches a r;
          taskData = (case out of Fulfilled v \<Rightarrow> v | Rejected err \<Rightarrow> None);
          a1 = (case out of
                  Fulfilled v \<Rightarrow> a
                | Rejected err \<Rightarrow> a\<lparr>console := console a @ [''[task-calendar] Failed to resolve item. '' @ err]\<rparr>);
          a2 = remove this a1
      in a2\<lparr>promises := (promises a2)[p := Some taskData]\<rparr>)"

text \<open>The getter \<^verbatim>\<open>ItemTaskCache.task\<close>: the promise it returns and the state it leaves.\<close>

definition task_get :: "ref \<Rightarrow> 't Adapter \<Rightarrow> promise \<times> 't Adapter" where
  "task_get r a =
     (case asyncTaskData (itemCaches a r) of
        None \<Rightarrow>
          (let a1 = getTaskDataModel_begin r a;
               p = length (promises a1)
           in (p, a1\<lparr>promises := promises a1 @ [None],
                     itemCaches := (itemCaches a1)(r := (itemCaches a1 r)\<lparr>asyncTaskData := Some p\<rparr>)\<rparr>))
      | Some p \<Rightarrow> (p, a))"

text \<open>
  The scheduler runs one piece of code at a time: a requester reads \<^verbatim>\<open>task\<close> of an entry,
  or the pending parse of an entry settles and the rest of its \<^verbatim>\<open>getTaskDataModel\<close>
  runs. A run takes any sequence of such events and collects, for every read, the entry and
  the promise the read returned.
\<close>

datatype 't event = Access ref | Settle ref "'t outcome"

definition settle :: "ref \<Rightarrow> 't outcome \<Rightarrow> 't Adapter \<Rightarrow> 't Adapter" where
  "settle r out a =
     (case asyncTaskData (itemCaches a r) of
        None \<Rightarrow> a
      | Some p \<Rightarrow> if p < length (promises a) \<and> promises a ! p = None
                  then getTaskDataModel_end r p out a else a)"

fun run :: "'t event list \<Rightarrow> 't Adapter \<Rightarrow> (ref \<times> promise) list \<Rightarrow> 't Adapter \<times> (ref \<times> promise) list" where
  "run [] a obs = (a, obs)"
| "run (Access r # es) a obs = run es (snd (task_get r a)) (obs @ [(r, fst (task_get r a))])"
| "run (Settle r out # es) a obs = run es (settle r out a) obs"

definition Adapter_new :: "(ref \<Rightarrow> ItemTaskCache) \<Rightarrow> 't Adapter" where
  "Adapter_new objs =
     \<lparr> tasks_table = Map.empty,
       internalFileQueue = Map.empty,
       internalListQueue = Map.empty,
       itemCaches = objs,
       promises = [],
       console = [],
       parses = [] \<rparr>"

subsection \<open>The end of a refresh: gathering and merging\<close>

text \<open>
  The part of \<^verbatim>\<open>setTasks\<close> after \<^verbatim>\<open>Promise.allSettled\<close>: the settled results of the
  documents are flattened into \<^verbatim>\<open>result.tasks\<close>, the reasons of the rejected ones are
  logged, and every task is written into \<^verbatim>\<open>_tasks\<close> under \<^verbatim>\<open>task.path\<close>.
\<close>

datatype 'a PromiseSettledResult = fulfilled 'a | rejected "string option"

definition getFulfilled :: "'a option PromiseSettledResult list \<Rightarrow> 'a list" where
  "getFulfilled vals =
     concat (map (\<lambda>input. case input of fulfilled (Some v) \<Rightarrow> [v] | _ \<Rightarrow> []) vals)"

definition getRejected :: "'a option PromiseSettledResult list \<Rightarrow> string list" where
  "getRejected vals =
     concat (map (\<lambda>input. case input of rejected reason \<Rightarrow> [nullish reason ''Unknown error.''] | _ \<Rightarrow> []) vals)"

definition setTasks_merge ::
  "'link TaskDataModel list \<Rightarrow> (string \<rightharpoonup> 'link TaskDataModel) \<Rightarrow> (string \<rightharpoonup> 'link TaskDataModel)" where
  "setTasks_merge tasks tbl = fold (\<lambda>task0 t. t(path task0 \<mapsto> task0)) tasks tbl"

definition setTasks_finish ::
  "'link TaskDataModel list option PromiseSettledResult list \<Rightarrow> 'link TaskDataModel Adapter
   \<Rightarrow> 'link TaskDataModel list \<times> 'link TaskDataModel Adapter" where
  "setTasks_finish settled a =
     (let result_tasks = concat (getFulfilled settled);
          result_errors = getRejected settled;
          a1 = a\<lparr>console := console a @ map (\<lambda>err. ''[task-calendar] '' @ err) result_errors\<rparr>
      in (result_tasks, a1\<lparr>tasks_table := setTasks_merge result_tasks (tasks_table a1)\<rparr>))"

text \<open>
  The identity of a record as the spec has it: the path of the document and the position
  of the item.
\<close>

definition identity :: "'link TaskDataModel \<Rightarrow> string \<times> Pos" where
  "identity t = (path t, position t)"

subsection \<open>Example inputs\<close>

text \<open>Concrete inputs at which the properties below are evaluated.\<close>

definition pos_example :: Pos where
  "pos_example = \<lparr>Pos.start = \<lparr>Loc.line = 3, col = 0, offset = 40\<rparr>, end = \<lparr>Loc.line = 3, col = 20, offset = 60\<rparr>\<rparr>"

definition frontMatter_example :: FrontMatterCache where
  "frontMatter_example = [''tag'' \<mapsto> FMString ''home'', ''tags'' \<mapsto> FMArray [''errand'', ''#todo'']]"

text \<open>
  Every field of a record that holds text, in the order of the record, then the optional
  visual text, the tags and the out-links (with links written as strings).
\<close>

definition string_valued_fields :: "string TaskDataModel \<Rightarrow> string list" where
  "string_valued_fields r =
     [symbol r, link r, section r, text r, path r, header r, status r, statusMarker r,
      priority r, recurrence r]
     @ (case visual r of None \<Rightarrow> [] | Some v \<Rightarrow> [v]) @ tags r @ outlinks r"

text \<open>
  A record with a given status marker, visual text and tags; a marker table with two
  entries; the resolved items of a document, the second of which is no task.
\<close>

definition task_example :: "string \<Rightarrow> string \<Rightarrow> string list \<Rightarrow> string TaskDataModel" where
  "task_example marker vis tgs =
     \<lparr> symbol = ''-'', link = ''a.md'', section = ''a.md'', text = ''- ['' @ marker @ ''] '' @ vis,
       visual = Some vis, tags = tgs, line = 0, lineCount = 1, list = 0, outlinks = [],
       path = ''a.md'', children = [], task = True, annotated = False, position = pos_example,
       subtasks = [], real = True, header = ''a.md'', status = marker, statusMarker = marker,
       checked = True, completed = (marker = ''x''), fullyCompleted = (marker \<noteq> '' ''),
       dailyNote = False, order = 0, priority = [], recurrence = [], frontMatter = Map.empty,
       isTasksTask = False, due = None, scheduled = None, start = None, completion = None,
       dates = Map.empty \<rparr>"

definition markerMap_example :: "string \<Rightarrow> string option" where
  "markerMap_example = [''x'' \<mapsto> ''done'', ''-'' \<mapsto> ''cancelled'']"

definition items_example :: "string TaskDataModel option list" where
  "items_example = [Some (task_example ''x'' ''done thing'' []), None,
                    Some (task_example '' '' ''open thing'' [''#work''])]"

text \<open>
  Comparators and an evaluator that knows two comparator sources and rejects every other
  text; an update that sets no option.
\<close>

definition always_one :: SortFunction where
  "always_one t1 t2 = Inr 1"

definition descending :: SortFunction where
  "descending t1 t2 = Inr (if order_or_0 t1 \<ge> order_or_0 t2 then - 1 else 1)"

definition eval_example :: "string \<Rightarrow> string + SortFunction" where
  "eval_example src =
     (if src = ''(t1, t2) => 1'' then Inr always_one
      else if src = ''(t1, t2) => t1.order >= t2.order ? -1 : 1'' then Inr descending
      else Inl ''SyntaxError: Unexpected token'')"

definition no_settings :: PartialUserOption where
  "no_settings = \<lparr> PartialUserOption.filterEmpty = None, useIncludeTags = None, taskIncludeTags = None,
      useExcludeTags = None, taskExcludeTags = None, hideStatusTasks = None, sort_src = None \<rparr>"

text \<open>
  A document \<^verbatim>\<open>a.md\<close> whose cache entry is object 7, with list items that carry no block
  id and have parent \<open>-1\<close>; every item entry of the store belongs to it. Two task records
  of that document, on lines 3 and 4.
\<close>

definition item_example :: ListItemCache where
  "item_example = \<lparr> item_id = None, item_parent = - 1, item_position = pos_example \<rparr>"

definition objs_example :: "ref \<Rightarrow> ItemTaskCache" where
  "objs_example r = ItemTaskCache_new 7 ''a.md'' item_example"

definition adapter_example :: "nat Adapter" where
  "adapter_example = Adapter_new objs_example"

definition pos_example2 :: Pos where
  "pos_example2 = \<lparr>Pos.start = \<lparr>Loc.line = 4, col = 0, offset = 61\<rparr>, end = \<lparr>Loc.line = 4, col = 12, offset = 73\<rparr>\<rparr>"

definition first_task :: "string TaskDataModel" where
  "first_task = (task_example '' '' ''first'' [])\<lparr>line := 3, list := 3\<rparr>"

definition second_task :: "string TaskDataModel" where
  "second_task = (task_example '' '' ''second'' [])\<lparr>line := 4, list := 4, position := pos_example2\<rparr>"

text \<open>
  The invariant of memoization for an entry \<open>r\<close>, over the state and the reads observed
  so far: while its promise is unset no parse of \<open>r\<close> has started and nobody has read it;
  once it is set exactly one parse has started and every read of \<open>r\<close> returned that promise.
\<close>

definition memo_inv :: "ref \<Rightarrow> 't Adapter \<Rightarrow> (ref \<times> promise) list \<Rightarrow> bool" where
  "memo_inv r a obs =
     (case asyncTaskData (itemCaches a r) of
        None \<Rightarrow> count_list (parses a) r = 0 \<and> list_all (\<lambda>x. fst x \<noteq> r) obs
      | Some p \<Rightarrow> count_list (parses a) r = 1 \<and> list_all (\<lambda>x. fst x = r \<longrightarrow> snd x = p) obs)"

text \<open>The objects passed to a call of the parser, with the front matter above.\<close>

definition args_example :: "string fromLine_args" where
  "args_example = \<lparr> arg_parent = ''a.md#Home'', arg_position = pos_example, arg_outLinks = [],
      arg_tags = [''#todo''], arg_frontMatter = Some frontMatter_example \<rparr>"

section \<open>Properties\<close>

subsection \<open>The default comparator never answers ``equal''\<close>

text \<open>
  C10. \<^verbatim>\<open>defaultSort\<close> never returns 0: it returns -1 when the first order (0 when absent)
  is at most the second, and 1 otherwise; for two tasks of equal order it returns -1 under
  both argument orders, so the branch returning 0 is never taken.
\<close>

theorem defaultSort_never_zero:
  "defaultSort t1 t2 \<noteq> 0
   \<and> defaultSort t1 t2 = (if order_or_0 t1 \<le> order_or_0 t2 then - 1 else 1)
   \<and> (order_or_0 t1 = order_or_0 t2 \<longrightarrow> defaultSort t1 t2 = - 1 \<and> defaultSort t2 t1 = - 1)"
  by (simp add: defaultSort_def Let_def)

theorem defaultSort_never_zero_witness:
  "order_or_0 (Some \<lparr>SortableTask.order = Some 3\<rparr>) = order_or_0 (Some \<lparr>SortableTask.order = Some 3\<rparr>)
   \<and> defaultSort (Some \<lparr>SortableTask.order = Some 3\<rparr>) (Some \<lparr>SortableTask.order = Some 3\<rparr>) = - 1
   \<and> defaultSort (Some \<lparr>SortableTask.order = Some 3\<rparr>) None = 1
   \<and> defaultSort None (Some \<lparr>SortableTask.order = None\<rparr>) = - 1"
  using defaultSort_never_zero [of "Some \<lparr>SortableTask.order = Some 3\<rparr>" "Some \<lparr>SortableTask.order = Some 3\<rparr>"]
    defaultSort_never_zero [of "Some \<lparr>SortableTask.order = Some 3\<rparr>" None]
    defaultSort_never_zero [of None "Some \<lparr>SortableTask.order = None\<rparr>"]
  by (simp add: order_or_0_def)

subsection \<open>Path selection\<close>

lemma split_not_Nil: "split c s \<noteq> []"
  by (induction s) (auto split: list.splits)

lemma length_split: "sum_list (map length (split c s)) + length (split c s) = Suc (length s)"
proof (induction s)
  case Nil
  then show ?case by simp
next
  case (Cons x xs)
  then show ?case using split_not_Nil [of c xs]
    by (cases "split c xs") auto
qed

lemma prefix_weight:
  "prefix xs ys \<Longrightarrow> sum_list (map length xs) + length xs \<le> sum_list (map length ys) + length ys"
  by (auto simp: prefix_def)

lemma every_indexed_prefix:
  "every_indexed (\<lambda>v i. array_get ys i = Some v) xs \<longleftrightarrow> prefix xs ys"
proof
  assume a: "every_indexed (\<lambda>v i. array_get ys i = Some v) xs"
  then have b: "\<forall>i<length xs. i < length ys \<and> ys ! i = xs ! i"
    by (auto simp: every_indexed_def list_all_iff array_get_def split: if_splits)
  show "prefix xs ys"
  proof (cases "xs = []")
    case True
    then show ?thesis by simp
  next
    case False
    then have "length xs - 1 < length xs" by simp
    with b have "length xs - 1 < length ys" by blast
    then have le: "length xs \<le> length ys" by simp
    have "take (length xs) ys = xs"
      using b le by (intro nth_equalityI) auto
    then show ?thesis by (metis take_is_prefix)
  qed
next
  assume "prefix xs ys"
  then obtain zs where "ys = xs @ zs" by (auto simp: prefix_def)
  then show "every_indexed (\<lambda>v i. array_get ys i = Some v) xs"
    by (auto simp: every_indexed_def list_all_iff array_get_def nth_append)
qed

text \<open>The length test of \<^verbatim>\<open>isParent\<close> never decides: a list prefix of segments is no longer.\<close>

lemma isParent_iff_prefix:
  "isParent parent pth \<longleftrightarrow> prefix (split CHR ''/'' parent) (split CHR ''/'' pth)"
proof (cases "length parent > length pth")
  case True
  have "\<not> prefix (split CHR ''/'' parent) (split CHR ''/'' pth)"
  proof
    assume "prefix (split CHR ''/'' parent) (split CHR ''/'' pth)"
    from prefix_weight [OF this] have "Suc (length parent) \<le> Suc (length pth)"
      by (simp only: length_split)
    with True show False by simp
  qed
  with True show ?thesis by (simp add: isParent_def)
next
  case False
  then show ?thesis by (simp add: isParent_def Let_def every_indexed_prefix)
qed

text \<open>
  C8. Path inclusion is prefix-segment matching: \<^verbatim>\<open>isParent\<close> holds exactly when every
  \<^verbatim>\<open>/\<close>-separated segment of the prefix equals the segment of the path at the same index
  (that is, the segments of the prefix are a list prefix of the segments of the path); an
  empty include list keeps every document, a non-empty one keeps the documents under one of
  its prefixes; \<^verbatim>\<open>Projects\<close> matches \<^verbatim>\<open>Projects/x.md\<close> and not \<^verbatim>\<open>Archive/x.md\<close>, and
  \<^verbatim>\<open>note\<close> does not match \<^verbatim>\<open>note2\<close>.
\<close>

theorem isParent_segments:
  "(isParent parent pth \<longleftrightarrow>
      (\<forall>i < length (split CHR ''/'' parent).
          i < length (split CHR ''/'' pth)
          \<and> split CHR ''/'' parent ! i = split CHR ''/'' pth ! i))
   \<and> (isParent parent pth \<longleftrightarrow> prefix (split CHR ''/'' parent) (split CHR ''/'' pth))
   \<and> (pathsIncludeFile flt pth \<longleftrightarrow> flt = [] \<or> (\<exists>p \<in> set flt. isParent p pth))
   \<and> pathsIncludeFile [] pth
   \<and> isParent ''Projects'' ''Projects/x.md''
   \<and> \<not> isParent ''Projects'' ''Archive/x.md''
   \<and> \<not> isParent ''note'' ''note2''"
proof -
  have 1: "isParent parent pth \<longleftrightarrow>
      (\<forall>i < length (split CHR ''/'' parent).
          i < length (split CHR ''/'' pth)
          \<and> split CHR ''/'' parent ! i = split CHR ''/'' pth ! i)"
  proof (cases "length parent > length pth")
    case True
    then have np: "\<not> isParent parent pth" by (simp add: isParent_def)
    then have "\<not> every_indexed (\<lambda>v i. array_get (split CHR ''/'' pth) i = Some v) (split CHR ''/'' parent)"
      by (simp add: isParent_iff_prefix every_indexed_prefix)
    with np show ?thesis
      by (auto simp: every_indexed_def list_all_iff array_get_def)
  next
    case False
    then show ?thesis
      by (auto simp: isParent_def Let_def every_indexed_def list_all_iff array_get_def split: if_splits)
  qed
  have 3: "pathsIncludeFile flt pth \<longleftrightarrow> flt = [] \<or> (\<exists>p \<in> set flt. isParent p pth)"
    by (simp add: pathsIncludeFile_def list_ex_iff)
  have 5: "isParent ''Projects'' ''Projects/x.md''"
    by (simp add: isParent_iff_prefix)
  have 6: "\<not> isParent ''Projects'' ''Archive/x.md''"
    by (simp add: isParent_iff_prefix)
  have 7: "\<not> isParent ''note'' ''note2''"
    by (simp add: isParent_iff_prefix)
  show ?thesis using 1 3 5 6 7 isParent_iff_prefix [of parent pth]
    by (simp add: pathsIncludeFile_def)
qed

theorem isParent_segments_witness:
  "pathsIncludeFile [''Projects''] ''Projects/x.md''
   \<and> \<not> pathsIncludeFile [''Projects''] ''Archive/x.md''
   \<and> \<not> pathsIncludeFile [''note''] ''note2''
   \<and> pathsIncludeFile [''Archive'', ''Projects/sub''] ''Projects/sub/x.md''"
  using isParent_segments [of "''Projects''" "''Projects/x.md''" "[''Projects'']"]
    isParent_segments [of "''Projects''" "''Archive/x.md''" "[''Projects'']"]
    isParent_segments [of "''note''" "''note2''" "[''note'']"]
    isParent_segments [of "''Projects/sub''" "''Projects/sub/x.md''" "[''Archive'', ''Projects/sub'']"]
  by (simp add: isParent_def every_indexed_def array_get_def)

subsection \<open>The line parser\<close>

lemma dropWhile_rev_suffix_last:
  assumes "xs \<noteq> []" "\<not> P (hd xs)"
  shows "dropWhile P (rev xs) \<noteq> [] \<and> last (dropWhile P (rev xs)) = hd xs"
proof -
  obtain x ys where xs: "xs = x # ys" using assms(1) by (cases xs) auto
  have "dropWhile P (rev ys @ [x]) = dropWhile P (rev ys) @ [x]"
    using assms(2) xs by (simp add: dropWhile_append3)
  then show ?thesis using xs by simp
qed

lemma trim_idem: "trim (trim s) = trim s"
proof -
  define a where "a = dropWhile is_space s"
  define b where "b = dropWhile is_space (rev a)"
  have ts: "trim s = rev b" by (simp add: trim_def a_def b_def)
  have hb: "b = [] \<or> \<not> is_space (hd b)"
    unfolding b_def by (metis hd_dropWhile)
  have lb: "b = [] \<or> \<not> is_space (last b)"
  proof (cases "a = []")
    case True
    then show ?thesis by (simp add: b_def)
  next
    case False
    then have "\<not> is_space (hd a)" unfolding a_def by (metis hd_dropWhile)
    with False show ?thesis
      using dropWhile_rev_suffix_last [of a is_space] by (simp add: b_def)
  qed
  have 1: "dropWhile is_space (rev b) = rev b"
  proof (cases "b = []")
    case True then show ?thesis by simp
  next
    case False
    with lb have "\<not> is_space (hd (rev b))" by (simp add: hd_rev)
    with False show ?thesis by (cases "rev b") auto
  qed
  have 2: "dropWhile is_space b = b"
  proof (cases b)
    case Nil then show ?thesis by simp
  next
    case (Cons x xs)
    with hb show ?thesis by simp
  qed
  show ?thesis
    unfolding ts unfolding trim_def by (simp add: 1 2)
qed

lemma taskRegex_buy_milk:
  "taskRegex_spec ''- [ ] buy milk #todo'' = Some ([], ''-'', '' '', '' buy milk #todo'')"
  by (simp add: taskRegex_spec_def is_space_def)

lemma trim_buy_milk: "trim '' buy milk #todo'' = ''buy milk #todo''"
  by (simp add: trim_def is_space_def)

lemma blockLink_buy_milk: "blockLinkRegex_spec ''buy milk #todo'' = None"
  by (simp add: blockLinkRegex_spec_def is_ident_char_def)

lemma fromLine_no_blockLink:
  assumes "taskRegex re ln = Some (ind, lm, st, g4)"
    and "blockLinkRegex re (trim g4) = None"
  shows "\<exists>r. fromLine re ln fp parent pos outs tgs None = (tgs, Inr (Some r))
         \<and> statusMarker r = st \<and> visual r = Some (trim g4)
         \<and> checked r = (length (replace_first CHR '' '' (trim g4)) \<noteq> 0)
         \<and> completed r = (st = ''x'') \<and> fullyCompleted r = (st \<noteq> '' '')"
  using assms by (simp add: fromLine_def push_frontMatter_tags_def trim_idem Let_def)

text \<open>
  C9. For the line \<^verbatim>\<open>- [ ] buy milk #todo\<close> with no front matter the parser returns a
  record with status marker \<^verbatim>\<open>' '\<close>, visual text \<^verbatim>\<open>buy milk #todo\<close>, checked true,
  completed false and fullyCompleted false. In general, for a task line without a block
  link and without front matter: checked is true exactly when the trimmed body with its
  first space removed is not empty, completed says that the marker is \<^verbatim>\<open>x\<close>, and
  fullyCompleted that the marker is not a space.
\<close>

theorem fromLine_buy_milk:
  "(\<exists>r. fromLine TaskRegularExpressions_spec ''- [ ] buy milk #todo'' fp parent pos outs tgs None
          = (tgs, Inr (Some r))
       \<and> statusMarker r = '' '' \<and> visual r = Some ''buy milk #todo''
       \<and> checked r \<and> \<not> completed r \<and> \<not> fullyCompleted r)
   \<and> (taskRegex re ln = Some (ind, lm, st, g4) \<and> blockLinkRegex re (trim g4) = None \<longrightarrow>
        (\<exists>r. fromLine re ln fp parent pos outs tgs None = (tgs, Inr (Some r))
           \<and> statusMarker r = st \<and> visual r = Some (trim g4)
           \<and> checked r = (length (replace_first CHR '' '' (trim g4)) \<noteq> 0)
           \<and> completed r = (st = ''x'') \<and> fullyCompleted r = (st \<noteq> '' '')))"
proof -
  have a: "taskRegex TaskRegularExpressions_spec ''- [ ] buy milk #todo''
             = Some ([], ''-'', '' '', '' buy milk #todo'')"
    by (simp add: TaskRegularExpressions_spec_def taskRegex_buy_milk)
  have b: "blockLinkRegex TaskRegularExpressions_spec (trim '' buy milk #todo'') = None"
    by (simp add: TaskRegularExpressions_spec_def trim_buy_milk blockLink_buy_milk)
  from fromLine_no_blockLink [OF a b, of fp parent pos outs tgs]
  have 1: "\<exists>r. fromLine TaskRegularExpressions_spec ''- [ ] buy milk #todo'' fp parent pos outs tgs None
          = (tgs, Inr (Some r))
       \<and> statusMarker r = '' '' \<and> visual r = Some ''buy milk #todo''
       \<and> checked r \<and> \<not> completed r \<and> \<not> fullyCompleted r"
    by (simp add: trim_buy_milk)
  show ?thesis using 1 fromLine_no_blockLink [of re ln ind lm st g4 fp parent pos outs tgs]
    by blast
qed

theorem fromLine_buy_milk_witness:
  "taskRegex TaskRegularExpressions_spec ''* [x] done thing'' = Some ([], ''*'', ''x'', '' done thing'')
   \<and> blockLinkRegex TaskRegularExpressions_spec (trim '' done thing'') = None
   \<and> (\<exists>r. fromLine TaskRegularExpressions_spec ''* [x] done thing'' ''a.md'' ''a.md'' pos_example [] [''#t''] None
            = ([''#t''], Inr (Some r))
          \<and> statusMarker r = ''x'' \<and> visual r = Some ''done thing''
          \<and> checked r \<and> completed r \<and> fullyCompleted r)"
proof -
  have a: "taskRegex TaskRegularExpressions_spec ''* [x] done thing'' = Some ([], ''*'', ''x'', '' done thing'')"
    by (simp add: TaskRegularExpressions_spec_def taskRegex_spec_def is_space_def)
  have t: "trim '' done thing'' = ''done thing''"
    by (simp add: trim_def is_space_def)
  have b: "blockLinkRegex TaskRegularExpressions_spec (trim '' done thing'') = None"
    by (simp add: t TaskRegularExpressions_spec_def blockLinkRegex_spec_def is_ident_char_def)
  show ?thesis
    using a b t
      fromLine_buy_milk [of "''a.md''" "''a.md''" pos_example "[]" "[''#t'']" TaskRegularExpressions_spec
        "''* [x] done thing''" "[]" "''*''" "''x''" "'' done thing''"]
    by simp
qed

lemma taskRegex_abc: "taskRegex_spec ''- [ ] buy milk ^abc123'' = Some ([], ''-'', '' '', '' buy milk ^abc123'')"
  by (simp add: taskRegex_spec_def is_space_def)

lemma trim_abc: "trim '' buy milk ^abc123'' = ''buy milk ^abc123''"
  by (simp add: trim_def is_space_def)

lemma blockLink_abc: "blockLinkRegex_spec ''buy milk ^abc123'' = Some (''buy milk '', ''^abc123'', [])"
  by (simp add: blockLinkRegex_spec_def is_ident_char_def)

lemma trim_buy_milk_sp: "trim ''buy milk '' = ''buy milk''"
  by (simp add: trim_def is_space_def)

lemma trim_buy_milk_plain: "trim ''buy milk'' = ''buy milk''"
  by (simp add: trim_def is_space_def)

text \<open>
  C4, as stated, fails: for \<^verbatim>\<open>- [ ] buy milk ^abc123\<close> the block link is stripped from the
  visual text, but the returned record has no field that holds it; of all its text-valued
  fields only the raw \<^verbatim>\<open>text\<close> (the whole line) still contains it.
\<close>

theorem fromLine_blockLink_counterexample:
  "map_sum id (map_option string_valued_fields)
     (snd (fromLine TaskRegularExpressions_spec ''- [ ] buy milk ^abc123'' ''a.md'' ''a.md#Home''
             pos_example [] [] None))
     = Inr (Some [''-'', ''a.md#Home'', ''a.md#Home'', ''- [ ] buy milk ^abc123'', ''a.md'',
                  ''a.md#Home'', '' '', '' '', [], [], ''buy milk''])
   \<and> ''^abc123'' \<notin> set [''-'', ''a.md#Home'', ''a.md#Home'', ''- [ ] buy milk ^abc123'', ''a.md'',
                  ''a.md#Home'', '' '', '' '', [], [], ''buy milk'']"
  by (simp add: fromLine_def TaskRegularExpressions_spec_def taskRegex_abc trim_abc blockLink_abc
      replace_regex_empty_def trim_buy_milk_sp trim_buy_milk_plain push_frontMatter_tags_def
      string_valued_fields_def Set_spread_def Let_def)

lemma push_frontMatter_tags_explicit:
  "fst (push_frontMatter_tags fm tgs) =
     tgs @ (case fm of
              None \<Rightarrow> []
            | Some m \<Rightarrow>
                (case m ''tag'' of Some (FMString t) \<Rightarrow> (if t = [] then [] else [t]) | _ \<Rightarrow> [])
                @ (case m ''tags'' of Some (FMArray ts) \<Rightarrow> ts | _ \<Rightarrow> []))"
  by (auto simp: push_frontMatter_tags_def Let_def split: option.splits FrontMatterValue.splits)

lemma push_frontMatter_tags_throws:
  "snd (push_frontMatter_tags fm tgs) =
     (case fm of
        None \<Rightarrow> None
      | Some m \<Rightarrow> (case m ''tags'' of
                     Some FMObject \<Rightarrow> Some ''TypeError: frontMatter.tags.forEach is not a function''
                   | _ \<Rightarrow> None))"
  by (auto simp: push_frontMatter_tags_def Let_def split: option.splits FrontMatterValue.splits)

text \<open>
  C4, amended. For every task line whose trimmed body ends with a block link (the match
  of the block-link expression, not empty, with nothing after it), and whose front matter
  does not make the parser throw, the parser returns the record written out below. Its
  visual text is the body without the block link, trimmed, and its checked flag is
  computed from that text. No field is there for the block link: every other field is the
  list marker, the status character, an argument passed on as given, the de-duplicated
  tags, or a fixed default. The block link is kept only inside the raw \<^verbatim>\<open>text\<close>, which is
  the line as given.
\<close>

theorem fromLine_blockLink_stripped:
  assumes "taskRegex re ln = Some (ind, lm, st, g4)"
    and "blockLinkRegex re (trim g4) = Some (pre, tok, [])"
    and "trim g4 = pre @ tok"
    and "tok \<noteq> []"
    and "\<forall>m. fm = Some m \<longrightarrow> m ''tags'' \<noteq> Some FMObject"
    and "tgs1 = tgs @ (case fm of
              None \<Rightarrow> []
            | Some m \<Rightarrow>
                (case m ''tag'' of Some (FMString t) \<Rightarrow> (if t = [] then [] else [t]) | _ \<Rightarrow> [])
                @ (case m ''tags'' of Some (FMArray ts) \<Rightarrow> ts | _ \<Rightarrow> []))"
  shows "fromLine re ln fp parent pos outs tgs fm =
     (tgs1,
      Inr (Some \<lparr>
        symbol = lm,
        link = parent,
        section = parent,
        text = ln,
        visual = Some (trim pre),
        tags = Set_spread tgs1,
        line = Loc.line (Pos.start pos),
        lineCount = Loc.line (end pos) - Loc.line (Pos.start pos) + 1,
        list = Loc.line (Pos.start pos),
        outlinks = outs,
        path = fp,
        children = [],
        task = True,
        annotated = False,
        position = pos,
        subtasks = [],
        real = True,
        header = parent,
        status = st,
        statusMarker = st,
        checked = (replace_first CHR '' '' (trim pre) \<noteq> []),
        completed = (st = ''x''),
        fullyCompleted = (st \<noteq> '' ''),
        dailyNote = False,
        order = 0,
        priority = [],
        recurrence = [],
        frontMatter = (case fm of None \<Rightarrow> Map.empty | Some m \<Rightarrow> m),
        isTasksTask = False,
        due = None,
        scheduled = None,
        start = None,
        completion = None,
        dates = Map.empty \<rparr>))"
proof -
  have nothrow: "snd (push_frontMatter_tags fm tgs) = None"
    using assms(5) by (auto simp: push_frontMatter_tags_throws split: option.splits FrontMatterValue.splits)
  have pushed: "fst (push_frontMatter_tags fm tgs) = tgs1"
    unfolding assms(6) by (rule push_frontMatter_tags_explicit)
  have p: "push_frontMatter_tags fm tgs = (tgs1, None)"
    using nothrow pushed by (cases "push_frontMatter_tags fm tgs") simp
  show ?thesis
    using assms(1-4) p by (simp add: fromLine_def replace_regex_empty_def trim_idem Let_def)
qed

theorem fromLine_blockLink_stripped_witness:
  "fromLine TaskRegularExpressions_spec ''- [ ] buy milk ^abc123'' ''a.md'' ''a.md#Home'' pos_example []
      [''#t''] (Some [''tag'' \<mapsto> FMString ''home''])
     = ([''#t'', ''home''],
        Inr (Some \<lparr>
          symbol = ''-'', link = ''a.md#Home'', section = ''a.md#Home'',
          text = ''- [ ] buy milk ^abc123'', visual = Some ''buy milk'',
          tags = [''#t'', ''home''], line = 3, lineCount = 1, list = 3, outlinks = [],
          path = ''a.md'', children = [], task = True, annotated = False,
          position = pos_example, subtasks = [], real = True, header = ''a.md#Home'',
          status = '' '', statusMarker = '' '', checked = True, completed = False,
          fullyCompleted = False, dailyNote = False, order = 0, priority = [],
          recurrence = [], frontMatter = [''tag'' \<mapsto> FMString ''home''],
          isTasksTask = False, due = None, scheduled = None, start = None,
          completion = None, dates = Map.empty \<rparr>))"
proof -
  have a: "taskRegex TaskRegularExpressions_spec ''- [ ] buy milk ^abc123'' = Some ([], ''-'', '' '', '' buy milk ^abc123'')"
    by (simp add: TaskRegularExpressions_spec_def taskRegex_abc)
  have b: "blockLinkRegex TaskRegularExpressions_spec (trim '' buy milk ^abc123'') = Some (''buy milk '', ''^abc123'', [])"
    by (simp add: TaskRegularExpressions_spec_def trim_abc blockLink_abc)
  have c: "trim '' buy milk ^abc123'' = ''buy milk '' @ ''^abc123''"
    by (simp add: trim_abc)
  have d: "''^abc123'' \<noteq> []" by simp
  have e: "\<forall>m. Some [''tag'' \<mapsto> FMString ''home''] = Some m \<longrightarrow> m ''tags'' \<noteq> Some FMObject"
    by simp
  have f: "[''#t'', ''home''] = [''#t''] @ (case Some [''tag'' \<mapsto> FMString ''home''] of
              None \<Rightarrow> []
            | Some m \<Rightarrow>
                (case m ''tag'' of Some (FMString t) \<Rightarrow> (if t = [] then [] else [t]) | _ \<Rightarrow> [])
                @ (case m ''tags'' of Some (FMArray ts) \<Rightarrow> ts | _ \<Rightarrow> []))"
    by simp
  from fromLine_blockLink_stripped [OF a b c d e f, of "''a.md''" "''a.md#Home''" pos_example "[]"]
  show ?thesis by (simp add: trim_buy_milk_sp Set_spread_def pos_example_def)
qed

lemma fromLine_fst:
  "fst (fromLine re ln fp parent pos outs tgs fm) =
     (if taskRegex re ln = None then tgs else fst (push_frontMatter_tags fm tgs))"
  by (auto simp: fromLine_def Let_def split: option.splits prod.splits)

lemma fromLine_fst_explicit:
  "fst (fromLine re ln fp parent pos outs tgs fm) =
       (if taskRegex re ln = None then tgs
        else tgs @
          (case fm of
             None \<Rightarrow> []
           | Some m \<Rightarrow>
               (case m ''tag'' of Some (FMString t) \<Rightarrow> (if t = [] then [] else [t]) | _ \<Rightarrow> [])
               @ (case m ''tags'' of Some (FMArray ts) \<Rightarrow> ts | _ \<Rightarrow> [])))"
  by (simp add: fromLine_fst push_frontMatter_tags_explicit)

text \<open>
  C5, as stated, fails: with a front matter that declares tags the parser pushes them onto
  the \<^verbatim>\<open>tags\<close> array of its caller.
\<close>

theorem fromLine_pure_counterexample:
  "fst (fromLine TaskRegularExpressions_spec ''- [ ] buy milk #todo'' ''a.md'' ''a.md#Home'' pos_example []
          [''#todo''] (Some frontMatter_example))
     = [''#todo'', ''home'', ''errand'', ''#todo'']
   \<and> fst (fromLine TaskRegularExpressions_spec ''- [ ] buy milk #todo'' ''a.md'' ''a.md#Home'' pos_example []
          [''#todo''] (Some frontMatter_example))
     \<noteq> [''#todo'']"
  by (simp add: fromLine_fst TaskRegularExpressions_spec_def taskRegex_buy_milk
      push_frontMatter_tags_def frontMatter_example_def)

text \<open>
  C5, amended. The parser has one side effect, on the \<^verbatim>\<open>tags\<close> array of its caller: when
  the line is a task line and a front matter is given, the string \<^verbatim>\<open>tag\<close> of the front
  matter, if it is not empty, and then the elements of its list \<^verbatim>\<open>tags\<close> are appended to
  the array; the array is unchanged when the line is not a task line, when there is no
  front matter, or when the front matter has neither entry. Every other object passed to
  the call (parent link, position, out-links, front matter) is after the call what it was
  before. The record returned holds the line, the path, the parent link, the position,
  the out-links and the front matter as they were passed, and its tags are the array
  after the call, de-duplicated.
\<close>

theorem fromLine_tags_effect:
  "fst (fromLine_on re ln fp args) =
      args\<lparr>arg_tags :=
        (if taskRegex re ln = None then arg_tags args
         else arg_tags args @
           (case arg_frontMatter args of
              None \<Rightarrow> []
            | Some m \<Rightarrow>
                (case m ''tag'' of Some (FMString t) \<Rightarrow> (if t = [] then [] else [t]) | _ \<Rightarrow> [])
                @ (case m ''tags'' of Some (FMArray ts) \<Rightarrow> ts | _ \<Rightarrow> [])))\<rparr>
   \<and> snd (fromLine_on re ln fp args) =
       snd (fromLine re ln fp (arg_parent args) (arg_position args) (arg_outLinks args)
              (arg_tags args) (arg_frontMatter args))
   \<and> fst (fromLine re ln fp parent pos outs tgs fm) =
       (if taskRegex re ln = None then tgs
        else tgs @
          (case fm of
             None \<Rightarrow> []
           | Some m \<Rightarrow>
               (case m ''tag'' of Some (FMString t) \<Rightarrow> (if t = [] then [] else [t]) | _ \<Rightarrow> [])
               @ (case m ''tags'' of Some (FMArray ts) \<Rightarrow> ts | _ \<Rightarrow> [])))
   \<and> fst (fromLine re ln fp parent pos outs tgs None) = tgs
   \<and> (taskRegex re ln = None \<longrightarrow> fst (fromLine re ln fp parent pos outs tgs fm) = tgs)
   \<and> (fm = Some m' \<and> (\<forall>t. m' ''tag'' = Some (FMString t) \<longrightarrow> t = [])
        \<and> (\<forall>ts. m' ''tags'' = Some (FMArray ts) \<longrightarrow> ts = [])
        \<longrightarrow> fst (fromLine re ln fp parent pos outs tgs fm) = tgs)
   \<and> (snd (fromLine re ln fp parent pos outs tgs fm) = Inr (Some r) \<longrightarrow>
        text r = ln \<and> path r = fp \<and> link r = parent \<and> section r = parent \<and> header r = parent
        \<and> position r = pos \<and> outlinks r = outs
        \<and> frontMatter r = (case fm of None \<Rightarrow> Map.empty | Some m \<Rightarrow> m)
        \<and> tags r = Set_spread (tgs @
            (case fm of
               None \<Rightarrow> []
             | Some m \<Rightarrow>
                 (case m ''tag'' of Some (FMString t) \<Rightarrow> (if t = [] then [] else [t]) | _ \<Rightarrow> [])
                 @ (case m ''tags'' of Some (FMArray ts) \<Rightarrow> ts | _ \<Rightarrow> []))))"
proof -
  note 3 = fromLine_fst_explicit
  have 1: "fst (fromLine_on re ln fp args) =
      args\<lparr>arg_tags :=
        (if taskRegex re ln = None then arg_tags args
         else arg_tags args @
           (case arg_frontMatter args of
              None \<Rightarrow> []
            | Some m \<Rightarrow>
                (case m ''tag'' of Some (FMString t) \<Rightarrow> (if t = [] then [] else [t]) | _ \<Rightarrow> [])
                @ (case m ''tags'' of Some (FMArray ts) \<Rightarrow> ts | _ \<Rightarrow> [])))\<rparr>"
  proof -
    have "fst (fromLine_on re ln fp args) =
            args\<lparr>arg_tags := fst (fromLine re ln fp (arg_parent args) (arg_position args)
                                     (arg_outLinks args) (arg_tags args) (arg_frontMatter args))\<rparr>"
      by (simp add: fromLine_on_def case_prod_beta)
    then show ?thesis
      by (simp only: 3 [of re ln fp "arg_parent args" "arg_position args" "arg_outLinks args"
            "arg_tags args" "arg_frontMatter args"])
  qed
  have 2: "snd (fromLine_on re ln fp args) =
       snd (fromLine re ln fp (arg_parent args) (arg_position args) (arg_outLinks args)
              (arg_tags args) (arg_frontMatter args))"
    by (simp add: fromLine_on_def case_prod_beta)
  have 4: "fst (fromLine re ln fp parent pos outs tgs None) = tgs"
    by (simp add: 3)
  have 5: "taskRegex re ln = None \<longrightarrow> fst (fromLine re ln fp parent pos outs tgs fm) = tgs"
    by (simp add: 3)
  have 6: "fm = Some m' \<and> (\<forall>t. m' ''tag'' = Some (FMString t) \<longrightarrow> t = [])
        \<and> (\<forall>ts. m' ''tags'' = Some (FMArray ts) \<longrightarrow> ts = [])
        \<longrightarrow> fst (fromLine re ln fp parent pos outs tgs fm) = tgs"
    by (auto simp: 3 split: option.splits FrontMatterValue.splits)
  have 7: "snd (fromLine re ln fp parent pos outs tgs fm) = Inr (Some r) \<longrightarrow>
        text r = ln \<and> path r = fp \<and> link r = parent \<and> section r = parent \<and> header r = parent
        \<and> position r = pos \<and> outlinks r = outs
        \<and> frontMatter r = (case fm of None \<Rightarrow> Map.empty | Some m \<Rightarrow> m)
        \<and> tags r = Set_spread (fst (push_frontMatter_tags fm tgs))"
    by (auto simp: fromLine_def Let_def split: option.splits prod.splits)
  from 1 2 3 [of re ln fp parent pos outs tgs fm] 4 5 6 7 show ?thesis
    by (simp add: push_frontMatter_tags_explicit)
qed


theorem fromLine_tags_effect_witness:
  "fst (fromLine_on TaskRegularExpressions_spec ''- [ ] buy milk #todo'' ''a.md'' args_example)
     = args_example\<lparr>arg_tags := [''#todo'', ''home'', ''errand'', ''#todo'']\<rparr>
   \<and> fst (fromLine TaskRegularExpressions_spec ''- [ ] buy milk #todo'' ''a.md'' ''a.md#Home'' pos_example []
          [''#todo''] (Some [''tag'' \<mapsto> FMString [], ''tags'' \<mapsto> FMNull]))
     = [''#todo'']
   \<and> fst (fromLine TaskRegularExpressions_spec ''not a task'' ''a.md'' ''a.md#Home'' pos_example []
          [''#todo''] (Some frontMatter_example))
     = [''#todo'']"
proof -
  have a: "taskRegex TaskRegularExpressions_spec ''- [ ] buy milk #todo'' \<noteq> None"
    by (simp add: TaskRegularExpressions_spec_def taskRegex_buy_milk)
  have b: "taskRegex TaskRegularExpressions_spec ''not a task'' = None"
    by (simp add: TaskRegularExpressions_spec_def taskRegex_spec_def is_space_def)
  have 1: "fst (fromLine_on TaskRegularExpressions_spec ''- [ ] buy milk #todo'' ''a.md'' args_example)
     = args_example\<lparr>arg_tags := [''#todo'', ''home'', ''errand'', ''#todo'']\<rparr>"
    using a
      fromLine_tags_effect [of TaskRegularExpressions_spec "''- [ ] buy milk #todo''" "''a.md''"
        args_example, THEN conjunct1]
    by (simp add: args_example_def frontMatter_example_def)
  have 2: "fst (fromLine TaskRegularExpressions_spec ''- [ ] buy milk #todo'' ''a.md'' ''a.md#Home'' pos_example []
          [''#todo''] (Some [''tag'' \<mapsto> FMString [], ''tags'' \<mapsto> FMNull])) = [''#todo'']"
    using
      fromLine_tags_effect [of TaskRegularExpressions_spec "''- [ ] buy milk #todo''" "''a.md''" _
        "''a.md#Home''" pos_example "[]" "[''#todo'']" "Some [''tag'' \<mapsto> FMString [], ''tags'' \<mapsto> FMNull]"
        "[''tag'' \<mapsto> FMString [], ''tags'' \<mapsto> FMNull]",
        THEN conjunct2, THEN conjunct2, THEN conjunct2, THEN conjunct2, THEN conjunct2, THEN conjunct1]
    by simp
  have 3: "fst (fromLine TaskRegularExpressions_spec ''not a task'' ''a.md'' ''a.md#Home'' pos_example []
          [''#todo''] (Some frontMatter_example)) = [''#todo'']"
    using b
      fromLine_tags_effect [of TaskRegularExpressions_spec "''not a task''" "''a.md''" _
        "''a.md#Home''" pos_example "[]" "[''#todo'']" "Some frontMatter_example",
        THEN conjunct2, THEN conjunct2, THEN conjunct2, THEN conjunct2, THEN conjunct1]
    by simp
  show ?thesis using 1 2 3 by simp
qed

subsection \<open>The filter chain\<close>

lemma getTasks_loop_acc:
  "getTasks_loop ms fs items acc = acc @ getTasks_loop ms fs items []"
proof (induction items arbitrary: acc)
  case Nil
  then show ?case by simp
next
  case (Cons item items)
  show ?case
  proof (cases item)
    case None
    then show ?thesis using Cons.IH [of acc] by simp
  next
    case (Some t)
    show ?thesis
    proof (cases "applyModifiers ms t")
      case None
      with Some show ?thesis using Cons.IH [of acc] by simp
    next
      case (Some tt)
      with \<open>item = Some t\<close> show ?thesis
        using Cons.IH [of acc] Cons.IH [of "acc @ [tt]"] Cons.IH [of "[tt]"] by simp
    qed
  qed
qed

lemma getTasks_Nil: "getTasks ms fs [] = []"
  by (simp add: getTasks_def)

lemma getTasks_Cons:
  "getTasks ms fs (item # items) =
     (case item of None \<Rightarrow> []
      | Some t \<Rightarrow> (case applyModifiers ms t of None \<Rightarrow> []
                   | Some tt \<Rightarrow> if list_all (\<lambda>f. f tt) fs then [tt] else []))
     @ getTasks ms fs items"
  using getTasks_loop_acc [of ms fs items "[x]" for x]
  by (simp add: getTasks_def split: option.splits)

lemma getTasks_mono:
  assumes "\<And>t. list_all (\<lambda>f. f t) fs' \<Longrightarrow> list_all (\<lambda>f. f t) fs"
  shows "subseq (getTasks ms fs' items) (getTasks ms fs items)"
proof (induction items)
  case Nil
  then show ?case by (simp add: getTasks_Nil)
next
  case (Cons item items)
  have "subseq (case item of None \<Rightarrow> []
      | Some t \<Rightarrow> (case applyModifiers ms t of None \<Rightarrow> []
                   | Some tt \<Rightarrow> if list_all (\<lambda>f. f tt) fs' then [tt] else []))
     (case item of None \<Rightarrow> []
      | Some t \<Rightarrow> (case applyModifiers ms t of None \<Rightarrow> []
                   | Some tt \<Rightarrow> if list_all (\<lambda>f. f tt) fs then [tt] else []))"
    using assms by (auto split: option.splits)
  from this Cons.IH show ?case
    unfolding getTasks_Cons by (rule list_emb_append_mono)
qed


lemma subseq_set_length:
  "subseq xs ys \<Longrightarrow> set xs \<subseteq> set ys \<and> length xs \<le> length ys"
proof
  assume a: "subseq xs ys"
  show "set xs \<subseteq> set ys"
  proof
    fix x assume "x \<in> set xs"
    with a show "x \<in> set ys" by (auto elim: list_emb_set)
  qed
  show "length xs \<le> length ys" using a by (rule list_emb_length)
qed


lemma passes_getFilters:
  "list_all (\<lambda>f. f t) (getFilters markerMap opts) \<longleftrightarrow>
     (hideStatusTasks opts = [] \<or>
        (statusMarker t \<notin> set (hideStatusTasks opts)
         \<and> (\<forall>m \<in> set (hideStatusTasks opts). markerMap m \<noteq> Some (status t))))
     \<and> (useIncludeTags opts \<longrightarrow> taskIncludeTags opts = [] \<or> (\<exists>tag \<in> set (taskIncludeTags opts). tag \<in> set (tags t)))
     \<and> (useExcludeTags opts \<longrightarrow> taskExcludeTags opts = [] \<or> (\<forall>tag \<in> set (taskExcludeTags opts). tag \<notin> set (tags t)))
     \<and> (filterEmpty opts \<longrightarrow> (case visual t of None \<Rightarrow> [] | Some v \<Rightarrow> trim v) \<noteq> [])"
  unfolding getFilters_def Let_def list_ex_iff list_all_iff
  by (simp only: list.set ball_simps insert_iff empty_iff length_0_conv) auto


lemma kept_tasks_mono:
  fixes items :: "'l TaskDataModel option list"
  assumes "\<And>t :: 'l TaskDataModel. list_all (\<lambda>f. f t) (getFilters markerMap opts')
             \<Longrightarrow> list_all (\<lambda>f. f t) (getFilters markerMap opts)"
  shows "set (kept_tasks markerMap opts' ms items) \<subseteq> set (kept_tasks markerMap opts ms items)
         \<and> length (kept_tasks markerMap opts' ms items) \<le> length (kept_tasks markerMap opts ms items)"
proof -
  have "subseq (getTasks ms (getFilters markerMap opts') items) (getTasks ms (getFilters markerMap opts) items)"
    by (rule getTasks_mono) (rule assms)
  then show ?thesis unfolding kept_tasks_def by (rule subseq_set_length)
qed

lemma hide_more_passes:
  assumes "set hs' = insert marker (set (hideStatusTasks opts))"
    and "list_all (\<lambda>f. f t) (getFilters markerMap (opts\<lparr>hideStatusTasks := hs'\<rparr>))"
  shows "list_all (\<lambda>f. f t) (getFilters markerMap opts)"
proof -
  from assms(1) have ne: "hs' \<noteq> []" by auto
  from assms(2) ne have a: "statusMarker t \<notin> set hs'" "\<forall>m \<in> set hs'. markerMap m \<noteq> Some (status t)"
    by (simp_all add: passes_getFilters)
  from a assms(1) have "statusMarker t \<notin> set (hideStatusTasks opts)"
    "\<forall>m \<in> set (hideStatusTasks opts). markerMap m \<noteq> Some (status t)"
    by simp_all
  with assms(2) show ?thesis by (simp add: passes_getFilters)
qed

text \<open>
  C6. The filter chain is monotonic. For every list of resolved items, every list of
  modifiers and every other option held fixed: the tasks kept with tag inclusion enabled,
  with tag exclusion enabled, or with empty-filtering enabled are among (and no more
  than) the tasks kept with that filter disabled, and the tasks kept after a marker is
  added to the hidden-status list are among (and no more than) those kept before.
\<close>

theorem filters_monotonic:
  fixes items :: "'a TaskDataModel option list"
  shows
  "set (kept_tasks markerMap (opts\<lparr>useIncludeTags := True\<rparr>) ms items)
      \<subseteq> set (kept_tasks markerMap (opts\<lparr>useIncludeTags := False\<rparr>) ms items)
   \<and> length (kept_tasks markerMap (opts\<lparr>useIncludeTags := True\<rparr>) ms items)
      \<le> length (kept_tasks markerMap (opts\<lparr>useIncludeTags := False\<rparr>) ms items)
   \<and> set (kept_tasks markerMap (opts\<lparr>useExcludeTags := True\<rparr>) ms items)
      \<subseteq> set (kept_tasks markerMap (opts\<lparr>useExcludeTags := False\<rparr>) ms items)
   \<and> length (kept_tasks markerMap (opts\<lparr>useExcludeTags := True\<rparr>) ms items)
      \<le> length (kept_tasks markerMap (opts\<lparr>useExcludeTags := False\<rparr>) ms items)
   \<and> set (kept_tasks markerMap (opts\<lparr>filterEmpty := True\<rparr>) ms items)
      \<subseteq> set (kept_tasks markerMap (opts\<lparr>filterEmpty := False\<rparr>) ms items)
   \<and> length (kept_tasks markerMap (opts\<lparr>filterEmpty := True\<rparr>) ms items)
      \<le> length (kept_tasks markerMap (opts\<lparr>filterEmpty := False\<rparr>) ms items)
   \<and> (set hs' = insert marker (set (hideStatusTasks opts)) \<longrightarrow>
        set (kept_tasks markerMap (opts\<lparr>hideStatusTasks := hs'\<rparr>) ms items)
          \<subseteq> set (kept_tasks markerMap opts ms items)
        \<and> length (kept_tasks markerMap (opts\<lparr>hideStatusTasks := hs'\<rparr>) ms items)
          \<le> length (kept_tasks markerMap opts ms items))"
proof -
  have inc: "list_all (\<lambda>f. f t) (getFilters markerMap (opts\<lparr>useIncludeTags := True\<rparr>))
             \<Longrightarrow> list_all (\<lambda>f. f t) (getFilters markerMap (opts\<lparr>useIncludeTags := False\<rparr>))"
    for t :: "'a TaskDataModel"
    by (simp add: passes_getFilters)
  have exc: "list_all (\<lambda>f. f t) (getFilters markerMap (opts\<lparr>useExcludeTags := True\<rparr>))
             \<Longrightarrow> list_all (\<lambda>f. f t) (getFilters markerMap (opts\<lparr>useExcludeTags := False\<rparr>))"
    for t :: "'a TaskDataModel"
    by (simp add: passes_getFilters)
  have emp: "list_all (\<lambda>f. f t) (getFilters markerMap (opts\<lparr>filterEmpty := True\<rparr>))
             \<Longrightarrow> list_all (\<lambda>f. f t) (getFilters markerMap (opts\<lparr>filterEmpty := False\<rparr>))"
    for t :: "'a TaskDataModel"
    by (simp add: passes_getFilters)
  note 1 = kept_tasks_mono [of markerMap "opts\<lparr>useIncludeTags := True\<rparr>" "opts\<lparr>useIncludeTags := False\<rparr>" ms items, OF inc]
  note 2 = kept_tasks_mono [of markerMap "opts\<lparr>useExcludeTags := True\<rparr>" "opts\<lparr>useExcludeTags := False\<rparr>" ms items, OF exc]
  note 3 = kept_tasks_mono [of markerMap "opts\<lparr>filterEmpty := True\<rparr>" "opts\<lparr>filterEmpty := False\<rparr>" ms items, OF emp]
  have 4: "set hs' = insert marker (set (hideStatusTasks opts)) \<longrightarrow>
        set (kept_tasks markerMap (opts\<lparr>hideStatusTasks := hs'\<rparr>) ms items)
          \<subseteq> set (kept_tasks markerMap opts ms items)
        \<and> length (kept_tasks markerMap (opts\<lparr>hideStatusTasks := hs'\<rparr>) ms items)
          \<le> length (kept_tasks markerMap opts ms items)"
  proof
    assume h: "set hs' = insert marker (set (hideStatusTasks opts))"
    show "set (kept_tasks markerMap (opts\<lparr>hideStatusTasks := hs'\<rparr>) ms items)
          \<subseteq> set (kept_tasks markerMap opts ms items)
        \<and> length (kept_tasks markerMap (opts\<lparr>hideStatusTasks := hs'\<rparr>) ms items)
          \<le> length (kept_tasks markerMap opts ms items)"
      by (rule kept_tasks_mono) (rule hide_more_passes [OF h])
  qed
  from 1 2 3 4 show ?thesis by simp
qed

lemma kept_example_1: "kept_tasks markerMap_example TaskOptions_new [] items_example = [task_example '' '' ''open thing'' [''#work'']]"
  by (simp add: kept_tasks_def getTasks_def items_example_def applyModifiers_def getFilters_def TaskOptions_new_def
    task_example_def trim_def is_space_def markerMap_example_def)

lemma kept_example_2: "kept_tasks markerMap_example (TaskOptions_new\<lparr>hideStatusTasks := [''x'', ''-'', '' '']\<rparr>) [] items_example = []"
  by (simp add: kept_tasks_def getTasks_def items_example_def applyModifiers_def getFilters_def TaskOptions_new_def
    task_example_def trim_def is_space_def markerMap_example_def)

theorem filters_monotonic_witness:
  "set [''x'', ''-'', '' ''] = insert '' '' (set (hideStatusTasks TaskOptions_new))
   \<and> set (kept_tasks markerMap_example (TaskOptions_new\<lparr>hideStatusTasks := [''x'', ''-'', '' '']\<rparr>) [] items_example)
       \<subseteq> set (kept_tasks markerMap_example TaskOptions_new [] items_example)
   \<and> length (kept_tasks markerMap_example (TaskOptions_new\<lparr>hideStatusTasks := [''x'', ''-'', '' '']\<rparr>) [] items_example)
       \<le> length (kept_tasks markerMap_example TaskOptions_new [] items_example)
   \<and> kept_tasks markerMap_example TaskOptions_new [] items_example = [task_example '' '' ''open thing'' [''#work'']]
   \<and> kept_tasks markerMap_example (TaskOptions_new\<lparr>hideStatusTasks := [''x'', ''-'', '' '']\<rparr>) [] items_example = []"
proof -
  have h: "set [''x'', ''-'', '' ''] = insert '' '' (set (hideStatusTasks TaskOptions_new))"
    by (auto simp: TaskOptions_new_def)
  from filters_monotonic [of markerMap_example TaskOptions_new "[]" items_example "[''x'', ''-'', '' '']" "'' ''"] h
  have "set (kept_tasks markerMap_example (TaskOptions_new\<lparr>hideStatusTasks := [''x'', ''-'', '' '']\<rparr>) [] items_example)
       \<subseteq> set (kept_tasks markerMap_example TaskOptions_new [] items_example)
   \<and> length (kept_tasks markerMap_example (TaskOptions_new\<lparr>hideStatusTasks := [''x'', ''-'', '' '']\<rparr>) [] items_example)
       \<le> length (kept_tasks markerMap_example TaskOptions_new [] items_example)"
    by blast
  with h kept_example_1 kept_example_2 show ?thesis by simp
qed

subsection \<open>Validation of the comparator\<close>

lemma sort_src_UserOptions_set:
  "sort_src (UserOptions_set settings this) = nullish (PartialUserOption.sort_src settings) (sort_src this)"
  by (simp add: UserOptions_set_def)

lemma TaskOptions_set_cases:
  "TaskOptions_set js_eval settings (this, logged) =
     (case probe_sortFunction js_eval (nullish (PartialUserOption.sort_src settings) (sort_src this)) of
        Inr f \<Rightarrow> ((UserOptions_set settings this)\<lparr>sortFunction := f\<rparr>, logged)
      | Inl err \<Rightarrow> (UserOptions_set settings this,
           logged @ [''[task-calendar] Sorting lambda is not applicable or invalid in some way. '' @ err]))"
  by (simp add: TaskOptions_set_def Let_def sort_src_UserOptions_set)

lemma sortFunction_UserOptions_set: "sortFunction (UserOptions_set settings this) = sortFunction this"
  by (simp add: UserOptions_set_def)

text \<open>
  C3, amended. When the comparator source of the configuration evaluates to a function
  that answers a positive number on the probe (order 2 against order 1), that function is
  installed as given and nothing is logged. When validation fails (the evaluation throws,
  the function throws on the probe, or its answer is not positive), one warning is logged
  and the installed comparator is left as it was before the call; it is the default
  comparator when it was the default before, as it is in a newly constructed
  configuration.
\<close>

theorem TaskOptions_set_sortFunction:
  "(js_eval (nullish (PartialUserOption.sort_src settings) (sort_src this)) = Inr f
      \<and> f (Some \<lparr>SortableTask.order = Some 2\<rparr>) (Some \<lparr>SortableTask.order = Some 1\<rparr>) = Inr n \<and> n > 0
    \<longrightarrow> sortFunction (fst (TaskOptions_set js_eval settings (this, logged))) = f
        \<and> snd (TaskOptions_set js_eval settings (this, logged)) = logged)
   \<and> (js_eval (nullish (PartialUserOption.sort_src settings) (sort_src this)) = Inl e
       \<or> (js_eval (nullish (PartialUserOption.sort_src settings) (sort_src this)) = Inr f
           \<and> (f (Some \<lparr>SortableTask.order = Some 2\<rparr>) (Some \<lparr>SortableTask.order = Some 1\<rparr>) = Inl e
               \<or> (f (Some \<lparr>SortableTask.order = Some 2\<rparr>) (Some \<lparr>SortableTask.order = Some 1\<rparr>) = Inr n
                   \<and> \<not> n > 0)))
    \<longrightarrow> sortFunction (fst (TaskOptions_set js_eval settings (this, logged))) = sortFunction this
        \<and> (\<exists>w. snd (TaskOptions_set js_eval settings (this, logged)) = logged @ [w])
        \<and> (sortFunction this = defaultSort_fn
             \<longrightarrow> sortFunction (fst (TaskOptions_set js_eval settings (this, logged))) = defaultSort_fn))
   \<and> sortFunction TaskOptions_new = defaultSort_fn"
  by (auto simp: TaskOptions_set_cases probe_sortFunction_def sortFunction_UserOptions_set TaskOptions_new_def)

theorem TaskOptions_set_sortFunction_witness:
  "sortFunction (fst (TaskOptions_set eval_example (no_settings\<lparr>PartialUserOption.sort_src := Some ''(t1, t2) => 1''\<rparr>)
       (TaskOptions_new, []))) = always_one
   \<and> snd (TaskOptions_set eval_example (no_settings\<lparr>PartialUserOption.sort_src := Some ''(t1, t2) => 1''\<rparr>)
       (TaskOptions_new, [])) = []
   \<and> sortFunction (fst (TaskOptions_set eval_example (no_settings\<lparr>PartialUserOption.sort_src := Some ''t1 <''\<rparr>)
       (TaskOptions_new, []))) = defaultSort_fn
   \<and> sortFunction (fst (TaskOptions_set eval_example
       (no_settings\<lparr>PartialUserOption.sort_src := Some ''(t1, t2) => t1.order >= t2.order ? -1 : 1''\<rparr>)
       (TaskOptions_new, []))) = defaultSort_fn"
proof -
  have a: "eval_example (nullish (PartialUserOption.sort_src (no_settings\<lparr>PartialUserOption.sort_src := Some ''(t1, t2) => 1''\<rparr>))
             (sort_src TaskOptions_new)) = Inr always_one
           \<and> always_one (Some \<lparr>SortableTask.order = Some 2\<rparr>) (Some \<lparr>SortableTask.order = Some 1\<rparr>) = Inr 1
           \<and> (1::int) > 0"
    by (simp add: nullish_def eval_example_def always_one_def)
  have b: "eval_example (nullish (PartialUserOption.sort_src (no_settings\<lparr>PartialUserOption.sort_src := Some ''t1 <''\<rparr>))
             (sort_src TaskOptions_new)) = Inl ''SyntaxError: Unexpected token''"
    by (simp add: nullish_def eval_example_def)
  have c: "eval_example (nullish (PartialUserOption.sort_src
               (no_settings\<lparr>PartialUserOption.sort_src := Some ''(t1, t2) => t1.order >= t2.order ? -1 : 1''\<rparr>))
             (sort_src TaskOptions_new)) = Inr descending
           \<and> descending (Some \<lparr>SortableTask.order = Some 2\<rparr>) (Some \<lparr>SortableTask.order = Some 1\<rparr>) = Inr (- 1)
           \<and> \<not> (- 1 :: int) > 0"
    by (simp add: nullish_def eval_example_def descending_def order_or_0_def)
  have d: "sortFunction TaskOptions_new = defaultSort_fn"
    by (simp add: TaskOptions_new_def)
  note t1 = TaskOptions_set_sortFunction [of eval_example
      "no_settings\<lparr>PartialUserOption.sort_src := Some ''(t1, t2) => 1''\<rparr>" TaskOptions_new always_one 1 "[]",
      THEN conjunct1, rule_format, OF a]
  note t2 = TaskOptions_set_sortFunction [of eval_example
      "no_settings\<lparr>PartialUserOption.sort_src := Some ''t1 <''\<rparr>" TaskOptions_new _ _ "[]" "''SyntaxError: Unexpected token''",
      THEN conjunct2, THEN conjunct1, rule_format, OF disjI1, OF b]
  note t3 = TaskOptions_set_sortFunction [of eval_example
      "no_settings\<lparr>PartialUserOption.sort_src := Some ''(t1, t2) => t1.order >= t2.order ? -1 : 1''\<rparr>"
      TaskOptions_new descending "- 1" "[]" _,
      THEN conjunct2, THEN conjunct1, rule_format, OF disjI2]
  have t3': "sortFunction (fst (TaskOptions_set eval_example
       (no_settings\<lparr>PartialUserOption.sort_src := Some ''(t1, t2) => t1.order >= t2.order ? -1 : 1''\<rparr>)
       (TaskOptions_new, []))) = sortFunction TaskOptions_new"
    using t3 c by blast
  from t1 t2 t3' d show ?thesis by simp
qed

text \<open>
  C3, as stated, fails: after a first configuration has installed a comparator that passes
  the probe, a second configuration whose comparator fails the probe logs the warning and
  leaves the first comparator installed, not the default one (the two differ on orders 1
  and 2).
\<close>

theorem TaskOptions_set_counterexample:
  "sortFunction (fst (TaskOptions_set eval_example (no_settings\<lparr>PartialUserOption.sort_src := Some ''(t1, t2) => t1.order >= t2.order ? -1 : 1''\<rparr>)
       (TaskOptions_set eval_example (no_settings\<lparr>PartialUserOption.sort_src := Some ''(t1, t2) => 1''\<rparr>) (TaskOptions_new, []))))
     (Some \<lparr>SortableTask.order = Some 1\<rparr>) (Some \<lparr>SortableTask.order = Some 2\<rparr>) = Inr 1
   \<and> defaultSort_fn (Some \<lparr>SortableTask.order = Some 1\<rparr>) (Some \<lparr>SortableTask.order = Some 2\<rparr>) = Inr (- 1)
   \<and> probe_sortFunction eval_example ''(t1, t2) => t1.order >= t2.order ? -1 : 1'' = Inl ''Error: Test function failed.''
   \<and> snd (TaskOptions_set eval_example (no_settings\<lparr>PartialUserOption.sort_src := Some ''(t1, t2) => t1.order >= t2.order ? -1 : 1''\<rparr>)
       (TaskOptions_set eval_example (no_settings\<lparr>PartialUserOption.sort_src := Some ''(t1, t2) => 1''\<rparr>) (TaskOptions_new, [])))
     = [''[task-calendar] Sorting lambda is not applicable or invalid in some way. Error: Test function failed.'']"
  by (simp add: TaskOptions_set_def Let_def UserOptions_set_def nullish_def no_settings_def TaskOptions_new_def
      probe_sortFunction_def eval_example_def always_one_def descending_def order_or_0_def defaultSort_fn_def defaultSort_def)

subsection \<open>Memoized resolution of an item\<close>

lemma ident_example: "ident (objs_example r) = ''a.md-1''"
  by (simp add: objs_example_def ItemTaskCache_new_def item_example_def nullish_def int_toString_def digit_char_def)

lemma begin_itemCaches [simp]: "itemCaches (getTaskDataModel_begin r a) = itemCaches a"
  by (simp add: getTaskDataModel_begin_def Let_def)

lemma begin_parses [simp]: "parses (getTaskDataModel_begin r a) = parses a @ [r]"
  by (simp add: getTaskDataModel_begin_def Let_def)

lemma begin_promises [simp]: "promises (getTaskDataModel_begin r a) = promises a"
  by (simp add: getTaskDataModel_begin_def Let_def)

lemma remove_frame [simp]:
  "itemCaches (remove this a) = itemCaches a" "parses (remove this a) = parses a"
  "promises (remove this a) = promises a" "console (remove this a) = console a"
  "tasks_table (remove this a) = tasks_table a"
  by (simp_all add: remove_def Let_def)

lemma end_frame [simp]:
  "itemCaches (getTaskDataModel_end r p out a) = itemCaches a"
  "parses (getTaskDataModel_end r p out a) = parses a"
  by (simp_all add: getTaskDataModel_end_def Let_def split: outcome.splits)

lemma settle_frame [simp]:
  "itemCaches (settle r out a) = itemCaches a"
  "parses (settle r out a) = parses a"
  by (simp_all add: settle_def split: option.splits)

lemma task_get_fresh:
  assumes "asyncTaskData (itemCaches a r) = None"
  shows "asyncTaskData (itemCaches (snd (task_get r a)) r) = Some (fst (task_get r a))"
    and "parses (snd (task_get r a)) = parses a @ [r]"
    and "r' \<noteq> r \<Longrightarrow> itemCaches (snd (task_get r a)) r' = itemCaches a r'"
  using assms by (simp_all add: task_get_def Let_def)

lemma task_get_memo:
  assumes "asyncTaskData (itemCaches a r) = Some p"
  shows "task_get r a = (p, a)"
  using assms by (simp add: task_get_def)

lemma memo_inv_Access_same:
  assumes "memo_inv r a obs"
  shows "memo_inv r (snd (task_get r a)) (obs @ [(r, fst (task_get r a))])"
proof (cases "asyncTaskData (itemCaches a r)")
  case None
  with assms have c: "count_list (parses a) r = 0" and o: "list_all (\<lambda>x. fst x \<noteq> r) obs"
    by (simp_all add: memo_inv_def)
  from o have o': "list_all (\<lambda>x. fst x = r \<longrightarrow> snd x = fst (task_get r a)) obs"
    by (simp add: list_all_iff)
  show ?thesis
    using c o' by (simp add: memo_inv_def task_get_fresh [OF None])
next
  case (Some p)
  with assms show ?thesis by (simp add: memo_inv_def task_get_memo [OF Some])
qed

lemma memo_inv_Access_other:
  assumes "memo_inv r a obs" "r' \<noteq> r"
  shows "memo_inv r (snd (task_get r' a)) (obs @ [(r', fst (task_get r' a))])"
proof (cases "asyncTaskData (itemCaches a r')")
  case None
  have 1: "itemCaches (snd (task_get r' a)) r = itemCaches a r"
    using task_get_fresh(3) [OF None, of r] assms(2) by simp
  have 2: "count_list (parses (snd (task_get r' a))) r = count_list (parses a) r"
    using assms(2) by (simp add: task_get_fresh(2) [OF None])
  show ?thesis using assms by (simp add: memo_inv_def 1 2 split: option.splits)
next
  case (Some p)
  with assms show ?thesis by (simp add: memo_inv_def task_get_memo [OF Some] split: option.splits)
qed

lemma memo_inv_Settle:
  assumes "memo_inv r a obs"
  shows "memo_inv r (settle r' out a) obs"
  using assms by (simp add: memo_inv_def split: option.splits)

lemma memo_inv_run:
  "memo_inv r a obs \<Longrightarrow> memo_inv r (fst (run es a obs)) (snd (run es a obs))"
proof (induction es a obs rule: run.induct)
  case (1 a obs)
  then show ?case by simp
next
  case (2 r' es a obs)
  have "memo_inv r (snd (task_get r' a)) (obs @ [(r', fst (task_get r' a))])"
    using memo_inv_Access_same [of r a obs] memo_inv_Access_other [of r a obs r'] "2.prems"
    by (cases "r' = r") simp_all
  from "2.IH" [OF this] show ?case by simp
next
  case (3 r' out es a obs)
  from "3.IH" [OF memo_inv_Settle [OF "3.prems"]] show ?case by simp
qed

lemma started_stays:
  "asyncTaskData (itemCaches a r) \<noteq> None \<Longrightarrow> asyncTaskData (itemCaches (fst (run es a obs)) r) \<noteq> None"
proof (induction es a obs rule: run.induct)
  case (1 a obs)
  then show ?case by simp
next
  case (2 r' es a obs)
  have "asyncTaskData (itemCaches (snd (task_get r' a)) r) \<noteq> None"
  proof (cases "asyncTaskData (itemCaches a r')")
    case None
    with "2.prems" have "r \<noteq> r'" by auto
    then show ?thesis using task_get_fresh(3) [OF None, of r] "2.prems" by simp
  next
    case (Some p)
    then show ?thesis using "2.prems" by (simp add: task_get_memo [OF Some])
  qed
  from "2.IH" [OF this] show ?case by simp
next
  case (3 r' out es a obs)
  then show ?case by simp
qed

lemma accessed_started:
  "Access r \<in> set es \<Longrightarrow> asyncTaskData (itemCaches (fst (run es a obs)) r) \<noteq> None"
proof (induction es a obs rule: run.induct)
  case (1 a obs)
  then show ?case by simp
next
  case (2 r' es a obs)
  show ?case
  proof (cases "r' = r")
    case True
    have "asyncTaskData (itemCaches (snd (task_get r a)) r) \<noteq> None"
    proof (cases "asyncTaskData (itemCaches a r)")
      case None
      then show ?thesis by (simp add: task_get_fresh(1) [OF None])
    next
      case (Some p)
      then show ?thesis by (simp add: task_get_memo [OF Some])
    qed
    from started_stays [OF this] True show ?thesis by simp
  next
    case False
    with "2.prems" have "Access r \<in> set es" by simp
    from "2.IH" [OF this] show ?thesis by simp
  qed
next
  case (3 r' out es a obs)
  then show ?case by simp
qed

text \<open>
  C7. For every item cache entry whose promise is still unset, and every sequence of
  reads of \<^verbatim>\<open>task\<close> (of this or of other entries) interleaved with settlements of pending
  parses: the parse of the entry is started at most once, exactly once as soon as the
  entry is read, and all reads of the entry, before or after the settlement, return one
  and the same promise, hence observe one and the same result.
\<close>

theorem task_memoized:
  assumes "asyncTaskData (itemCaches a r) = None" and "r \<notin> set (parses a)"
  shows "count_list (parses (fst (run es a []))) r \<le> 1
       \<and> (Access r \<in> set es \<longrightarrow> count_list (parses (fst (run es a []))) r = 1)
       \<and> (\<forall>p q. (r, p) \<in> set (snd (run es a [])) \<and> (r, q) \<in> set (snd (run es a []))
              \<longrightarrow> p = q \<and> promises (fst (run es a [])) ! p = promises (fst (run es a [])) ! q)"
proof -
  have "memo_inv r a []"
    using assms by (simp add: memo_inv_def count_list_0_iff)
  then have inv: "memo_inv r (fst (run es a [])) (snd (run es a []))"
    by (rule memo_inv_run)
  have 1: "count_list (parses (fst (run es a []))) r \<le> 1"
    using inv by (simp add: memo_inv_def split: option.splits)
  have 2: "Access r \<in> set es \<longrightarrow> count_list (parses (fst (run es a []))) r = 1"
    using inv accessed_started [of r es a "[]"] by (auto simp: memo_inv_def split: option.splits)
  have 3: "\<forall>p q. (r, p) \<in> set (snd (run es a [])) \<and> (r, q) \<in> set (snd (run es a []))
              \<longrightarrow> p = q \<and> promises (fst (run es a [])) ! p = promises (fst (run es a [])) ! q"
  proof (intro allI impI)
    fix p q
    assume h: "(r, p) \<in> set (snd (run es a [])) \<and> (r, q) \<in> set (snd (run es a []))"
    show "p = q \<and> promises (fst (run es a [])) ! p = promises (fst (run es a [])) ! q"
    proof (cases "asyncTaskData (itemCaches (fst (run es a [])) r)")
      case None
      with inv have "list_all (\<lambda>x. fst x \<noteq> r) (snd (run es a []))" by (simp add: memo_inv_def)
      with h show ?thesis by (auto simp: list_all_iff)
    next
      case (Some x)
      with inv have "list_all (\<lambda>x'. fst x' = r \<longrightarrow> snd x' = x) (snd (run es a []))"
        by (simp add: memo_inv_def)
      then have "\<And>y. (r, y) \<in> set (snd (run es a [])) \<Longrightarrow> y = x"
        by (auto simp: list_all_iff)
      with h have "p = x" "q = x" by blast+
      then show ?thesis by simp
    qed
  qed
  from 1 2 3 show ?thesis by simp
qed

lemma run_example_parses:
  "parses (fst (run [Access 0, Access 0, Settle 0 (Rejected ''boom''), Access 0] adapter_example [])) = [0]"
  by (simp add: task_get_def settle_def Let_def adapter_example_def Adapter_new_def objs_example_def
      ItemTaskCache_new_def getTaskDataModel_begin_def getTaskDataModel_end_def remove_def)

lemma run_example_obs:
  "snd (run [Access 0, Access 0, Settle 0 (Rejected ''boom''), Access 0] adapter_example []) = [(0, 0), (0, 0), (0, 0)]"
  by (simp add: task_get_def settle_def Let_def adapter_example_def Adapter_new_def objs_example_def
      ItemTaskCache_new_def getTaskDataModel_begin_def getTaskDataModel_end_def remove_def)

theorem task_memoized_witness:
  "asyncTaskData (itemCaches adapter_example 0) = None
   \<and> 0 \<notin> set (parses adapter_example)
   \<and> count_list (parses (fst (run [Access 0, Access 0, Settle 0 (Rejected ''boom''), Access 0] adapter_example []))) 0 = 1
   \<and> snd (run [Access 0, Access 0, Settle 0 (Rejected ''boom''), Access 0] adapter_example []) = [(0, 0), (0, 0), (0, 0)]"
proof -
  have h1: "asyncTaskData (itemCaches adapter_example 0) = None"
    by (simp add: adapter_example_def Adapter_new_def objs_example_def ItemTaskCache_new_def)
  have h2: "0 \<notin> set (parses adapter_example)"
    by (simp add: adapter_example_def Adapter_new_def)
  have acc: "Access 0 \<in> set [Access 0, Access 0, Settle 0 (Rejected ''boom''), Access 0 :: nat event]"
    by simp
  from task_memoized [OF h1 h2, of "[Access 0, Access 0, Settle 0 (Rejected ''boom''), Access 0]"] acc
  have "count_list (parses (fst (run [Access 0, Access 0, Settle 0 (Rejected ''boom''), Access 0] adapter_example []))) 0 = 1"
    by blast
  with h1 h2 run_example_obs show ?thesis by simp
qed

subsection \<open>Cleanup of the registry\<close>

text \<open>
  What \<^verbatim>\<open>remove\<close> does to the two queues: the entry of the item is deleted from the list
  queue, and the file queue is untouched under the path of the document unless the
  \<^verbatim>\<open>id\<close> of the item happens to equal it.
\<close>

lemma remove_listQueue: "internalListQueue (remove this a) (ident this) = None"
  by (simp add: remove_def Let_def)

lemma remove_fileQueue_other_key:
  "ident this \<noteq> fileCache_id this \<Longrightarrow>
     internalFileQueue (remove this a) (fileCache_id this) = internalFileQueue a (fileCache_id this)"
  by (simp add: remove_def Let_def split: option.splits)

text \<open>
  C2 says that on every completion the item leaves the list queue and the document cache
  entry leaves the file queue. The code does the first and misses the second:
  \<^verbatim>\<open>getTaskDataModel\<close> pushes the document cache entry under \<^verbatim>\<open>this._fileCache.id\<close>, and
  \<^verbatim>\<open>remove\<close> looks for it under \<^verbatim>\<open>this.id\<close>. For the document \<^verbatim>\<open>a.md\<close> (cache entry 7)
  and an item with \<^verbatim>\<open>id\<close> \<^verbatim>\<open>a.md-1\<close>, after the resolution has completed with a record,
  with \<^verbatim>\<open>null\<close> or with an error, the file queue still holds entry 7 under \<^verbatim>\<open>a.md\<close>, and
  has a new empty list under \<^verbatim>\<open>a.md-1\<close>.
\<close>

theorem getTaskDataModel_keeps_file_entry:
  "internalFileQueue (fst (run [Access 0, Settle 0 (Fulfilled (Some 5))] adapter_example [])) ''a.md'' = Some [7]
   \<and> internalFileQueue (fst (run [Access 0, Settle 0 (Fulfilled None)] adapter_example [])) ''a.md'' = Some [7]
   \<and> internalFileQueue (fst (run [Access 0, Settle 0 (Rejected ''boom'')] adapter_example [])) ''a.md'' = Some [7]
   \<and> internalFileQueue (fst (run [Access 0, Settle 0 (Fulfilled (Some 5))] adapter_example [])) ''a.md-1'' = Some []
   \<and> internalListQueue (fst (run [Access 0, Settle 0 (Fulfilled (Some 5))] adapter_example [])) ''a.md-1'' = None
   \<and> promises (fst (run [Access 0, Settle 0 (Fulfilled (Some 5))] adapter_example [])) = [Some (Some 5)]
   \<and> fileCache (itemCaches adapter_example 0) = 7
   \<and> fileCache_id (itemCaches adapter_example 0) = ''a.md''
   \<and> ident (itemCaches adapter_example 0) = ''a.md-1''"
  by (simp add: task_get_def settle_def Let_def adapter_example_def Adapter_new_def objs_example_def
      ItemTaskCache_new_def getTaskDataModel_begin_def getTaskDataModel_end_def remove_def
      item_example_def nullish_def int_toString_def digit_char_def array_remove_def resolved_def)

subsection \<open>Merging into the task table\<close>

lemma setTasks_merge_Nil: "setTasks_merge [] tbl = tbl"
  by (simp add: setTasks_merge_def)

lemma setTasks_merge_snoc: "setTasks_merge (ts @ [t]) tbl = (setTasks_merge ts tbl)(path t \<mapsto> t)"
  by (simp add: setTasks_merge_def)

lemma setTasks_merge_lookup:
  "setTasks_merge ts tbl k =
     (if filter (\<lambda>t. path t = k) ts = [] then tbl k
      else Some (last (filter (\<lambda>t. path t = k) ts)))"
proof (induction ts rule: rev_induct)
  case Nil
  then show ?case by (simp add: setTasks_merge_Nil)
next
  case (snoc t ts)
  then show ?case by (simp add: setTasks_merge_snoc)
qed

text \<open>
  C1 says that the table is keyed by the identity of a record, so that two tasks of one
  document never overwrite each other. The code writes every record under \<^verbatim>\<open>task.path\<close>:
  of two records of \<^verbatim>\<open>a.md\<close> with different positions, both returned by the refresh, the
  table keeps the second only.
\<close>

theorem setTasks_same_document:
  "fst (setTasks_finish [fulfilled (Some [first_task, second_task])] (Adapter_new objs_example))
      = [first_task, second_task]
   \<and> identity first_task \<noteq> identity second_task
   \<and> path first_task = ''a.md'' \<and> path second_task = ''a.md''
   \<and> tasks_table (snd (setTasks_finish [fulfilled (Some [first_task, second_task])] (Adapter_new objs_example))) ''a.md''
      = Some second_task
   \<and> dom (tasks_table (snd (setTasks_finish [fulfilled (Some [first_task, second_task])] (Adapter_new objs_example))))
      = {''a.md''}
   \<and> first_task \<notin> ran (tasks_table (snd (setTasks_finish [fulfilled (Some [first_task, second_task])] (Adapter_new objs_example))))"
proof -
  have p: "path first_task = ''a.md''" "path second_task = ''a.md''"
    by (simp_all add: first_task_def second_task_def task_example_def)
  have ne: "first_task \<noteq> second_task"
  proof
    assume "first_task = second_task"
    then have "line first_task = line second_task" by simp
    then show False by (simp add: first_task_def second_task_def)
  qed
  have idn: "identity first_task \<noteq> identity second_task"
    by (simp add: identity_def first_task_def second_task_def task_example_def pos_example_def pos_example2_def)
  have tbl: "tasks_table (snd (setTasks_finish [fulfilled (Some [first_task, second_task])] (Adapter_new objs_example)))
      = [''a.md'' \<mapsto> second_task]"
    by (simp add: setTasks_finish_def Let_def getFulfilled_def getRejected_def setTasks_merge_def
        Adapter_new_def p)
  have r: "fst (setTasks_finish [fulfilled (Some [first_task, second_task])] (Adapter_new objs_example))
      = [first_task, second_task]"
    by (simp add: setTasks_finish_def Let_def getFulfilled_def)
  show ?thesis using p ne idn r by (simp add: tbl)
qed

end
